theory Spec2Isabelle
  imports Main
begin

section \<open>Parse trees\<close>

text \<open>
  The parser returns nested Python lists whose leaves are strings or \<open>None\<close>
  (\<open>asList()\<close>). \<open>I\<close> stands for any other Python object (an integer here);
  the parser never produces it, but callers of the list API can pass one.
\<close>

datatype node = S string | N | I int | L "node list"

section \<open>Regular expressions of Python's \<open>re\<close>\<close>

text \<open>
  The patterns of the grammar use literals, \<open>.\<close> (any character but newline), negated
  character classes, \<open>\S\<close>, and the greedy operators \<open>?\<close>, \<open>*\<close>, \<open>+\<close>.
  \<open>rmatch r s\<close> lists, in the order in which the backtracking matcher tries them, the
  remainders of \<open>s\<close> after a match of \<open>r\<close> at its start. A repetition whose body
  matched the empty string is not repeated again (the zero-width protection of the
  matcher). \<open>re.match\<close> takes the first.
\<close>

datatype regex =
    Lit char
  | Dot
  | NotIn "char list"
  | NonSpace
  | Seq regex regex
  | Opt regex
  | Star regex
  | Plus regex

definition py_whitespace :: "char list" where
  \<comment> \<open>\<open>string.whitespace\<close>; also the characters of \<open>str.isspace\<close> and \<open>\s\<close>\<close>
  "py_whitespace = [CHR 0x09, CHR 0x0A, CHR 0x0B, CHR 0x0C, CHR 0x0D, CHR 0x20]"

fun repeat_from :: "nat \<Rightarrow> (string \<Rightarrow> string list) \<Rightarrow> string list \<Rightarrow> string list" where
  \<comment> \<open>after one more match of the body: repeat from \<open>s'\<close> if the match consumed
      something of the \<open>n\<close> characters there were, otherwise leave the loop\<close>
  "repeat_from n k [] = []"
| "repeat_from n k (s' # ss) = (if length s' < n then k s' else [s']) @ repeat_from n k ss"

lemma repeat_from_cong [fundef_cong]:
  "n = n' \<Longrightarrow> ss = ss' \<Longrightarrow> (\<And>s'. s' \<in> set ss' \<Longrightarrow> length s' < n' \<Longrightarrow> k s' = k' s') \<Longrightarrow>
   repeat_from n k ss = repeat_from n' k' ss'"
  by (induction ss arbitrary: ss') auto

function (sequential) rmatch :: "regex \<Rightarrow> string \<Rightarrow> string list" where
  "rmatch (Lit c) s = (case s of [] \<Rightarrow> [] | x # xs \<Rightarrow> if x = c then [xs] else [])"
| "rmatch Dot s = (case s of [] \<Rightarrow> [] | x # xs \<Rightarrow> if x = CHR 0x0A then [] else [xs])"
| "rmatch (NotIn cs) s = (case s of [] \<Rightarrow> [] | x # xs \<Rightarrow> if x \<in> set cs then [] else [xs])"
| "rmatch NonSpace s =
     (case s of [] \<Rightarrow> [] | x # xs \<Rightarrow> if x \<in> set py_whitespace then [] else [xs])"
| "rmatch (Seq a b) s = concat (map (rmatch b) (rmatch a s))"
| "rmatch (Opt a) s = rmatch a s @ [s]"
| "rmatch (Star a) s = repeat_from (length s) (rmatch (Star a)) (rmatch a s) @ [s]"
| "rmatch (Plus a) s = repeat_from (length s) (rmatch (Star a)) (rmatch a s)"
  by pat_completeness auto
termination
  by (relation "measures [\<lambda>(r, s). case r of Plus _ \<Rightarrow> 2 * size r + 1 | _ \<Rightarrow> 2 * size r,
                          \<lambda>(r, s). length s]") (auto split: regex.splits)


section \<open>The pyparsing elements the grammar is built from\<close>

text \<open>
  A parser element maps the text from the current location to the tokens it produces and
  the text that remains, or fails (\<open>ParseException\<close>). Elements that skip
  whitespace do so before matching (\<open>preParse\<close>); \<open>leaveWhitespace()\<close> turns
  that off, which is the flag \<open>lw\<close>.
\<close>

type_synonym tokens = "node list"
type_synonym parser = "string \<Rightarrow> (tokens \<times> string) option"

definition default_white :: "char list" where
  "default_white = [CHR 0x20, CHR 0x0A, CHR 0x09, CHR 0x0D]"

definition preParse :: "bool \<Rightarrow> string \<Rightarrow> string" where
  "preParse lw s = (if lw then s else dropWhile (\<lambda>c. c \<in> set default_white) s)"

definition Literal :: "bool \<Rightarrow> string \<Rightarrow> parser" where
  "Literal lw m s =
     (let s' = preParse lw s
      in if take (length m) s' = m then Some ([S m], drop (length m) s') else None)"

definition Word :: "bool \<Rightarrow> char list \<Rightarrow> parser" where
  "Word lw cs s =
     (let s' = preParse lw s; w = takeWhile (\<lambda>c. c \<in> set cs) s'
      in if w = [] then None else Some ([S w], drop (length w) s'))"

definition CharsNotIn :: "char list \<Rightarrow> parser" where
  "CharsNotIn cs s =
     (let w = takeWhile (\<lambda>c. c \<notin> set cs) s
      in if w = [] then None else Some ([S w], drop (length w) s))"

definition White :: parser where
  "White s =
     (let w = takeWhile (\<lambda>c. c \<in> set default_white) s
      in if w = [] then None else Some ([S w], drop (length w) s))"

definition Regex :: "bool \<Rightarrow> regex \<Rightarrow> parser" where
  "Regex lw r s =
     (let s' = preParse lw s
      in case rmatch r s' of
           [] \<Rightarrow> None
         | rest # _ \<Rightarrow> Some ([S (take (length s' - length rest) s')], rest))"

definition Optional :: "parser \<Rightarrow> parser" where
  "Optional p s = (case p s of None \<Rightarrow> Some ([], s) | Some r \<Rightarrow> Some r)"

definition Optional_default :: "parser \<Rightarrow> node \<Rightarrow> parser" where
  "Optional_default p d s = (case p s of None \<Rightarrow> Some ([d], s) | Some r \<Rightarrow> Some r)"

definition And :: "parser \<Rightarrow> parser \<Rightarrow> parser" where
  "And p q s =
     (case p s of
        None \<Rightarrow> None
      | Some (t1, s1) \<Rightarrow>
          (case q s1 of None \<Rightarrow> None | Some (t2, s2) \<Rightarrow> Some (t1 @ t2, s2)))"

definition MatchFirst :: "parser \<Rightarrow> parser \<Rightarrow> parser" where
  "MatchFirst p q s = (case p s of None \<Rightarrow> q s | Some r \<Rightarrow> Some r)"

fun Or_best :: "parser list \<Rightarrow> string \<Rightarrow> (tokens \<times> string) option \<Rightarrow> (tokens \<times> string) option"
  where
  "Or_best [] s best = best"
| "Or_best (e # es) s best =
     (case e s of
        None \<Rightarrow> Or_best es s best
      | Some (t, r) \<Rightarrow>
          (case best of
             None \<Rightarrow> Or_best es s (Some (t, r))
           | Some (bt, br) \<Rightarrow>
               if length r < length br then Or_best es s (Some (t, r))
               else Or_best es s best))"

definition Or :: "parser list \<Rightarrow> parser" where
  \<comment> \<open>the alternative that consumes most; the first of them on a tie\<close>
  "Or es s = Or_best es s None"

definition Group :: "parser \<Rightarrow> parser" where
  "Group p s = (case p s of None \<Rightarrow> None | Some (t, r) \<Rightarrow> Some ([L t], r))"

definition Suppress :: "parser \<Rightarrow> parser" where
  "Suppress p s = (case p s of None \<Rightarrow> None | Some (t, r) \<Rightarrow> Some ([], r))"

definition restOfLine :: parser where
  \<comment> \<open>\<open>Regex(".*").leaveWhitespace()\<close>\<close>
  "restOfLine = Regex True (Star Dot)"

definition stringEnd :: parser where
  "stringEnd s = (if preParse False s = [] then Some ([], []) else None)"

section \<open>The grammar of \<open>RawNginxParser\<close>\<close>

definition alphanums :: "char list" where
  "alphanums = ''abcdefghijklmnopqrstuvwxyzABCDEFGHIJKLMNOPQRSTUVWXYZ0123456789''"

definition quoted :: "char \<Rightarrow> regex" where
  "quoted q = Opt (Seq (Lit q) (Seq (Star Dot) (Lit q)))"

definition value_re :: regex where
  \<comment> \<open>\<open>((\".*\")?(\'.*\')?[^\{\};,]?)+\<close>\<close>
  "value_re = Plus (Seq (quoted (CHR 0x22)) (Seq (quoted (CHR 0x27)) (Opt (NotIn ''{};,''))))"

definition space :: parser where
  "space = Optional White"

definition left_bracket :: parser where
  "left_bracket = Suppress (Literal False ''{'')"

definition right_bracket :: parser where
  "right_bracket = And space (Suppress (Literal False ''}''))"

definition semicolon :: "bool \<Rightarrow> parser" where
  "semicolon lw = Suppress (Literal lw '';'')"

definition key :: "bool \<Rightarrow> parser" where
  "key lw = Word lw (alphanums @ ''_/+-.'')"

definition "value" :: "bool \<Rightarrow> parser" where
  "value lw = Regex lw value_re"

definition location :: parser where
  "location = CharsNotIn (''{};,'' @ py_whitespace)"

definition modifier :: "bool \<Rightarrow> parser" where
  "modifier lw =
     MatchFirst (Literal lw ''='')
       (MatchFirst (Literal lw ''~*'') (MatchFirst (Literal lw ''~'') (Literal lw ''^~'')))"

definition comment :: "bool \<Rightarrow> parser" where
  "comment lw = And space (And (Literal lw ''#'') restOfLine)"

definition assignment :: "bool \<Rightarrow> parser" where
  "assignment lw =
     And space (And (key lw) (And (Optional_default (And space (value lw)) N) (semicolon lw)))"

definition location_statement :: "bool \<Rightarrow> parser" where
  "location_statement lw =
     And space (And (Optional (modifier lw)) (Optional (And space (And location space))))"

definition if_statement :: "bool \<Rightarrow> parser" where
  "if_statement lw =
     And space (And (Literal lw ''if'')
       (And space (And (Regex lw (Seq (Lit CHR ''('') (Seq (Plus Dot) (Lit CHR '')'')))) space)))"

definition map_statement :: "bool \<Rightarrow> parser" where
  "map_statement lw =
     And space (And (Literal lw ''map'')
       (And space (And (Regex lw (Plus NonSpace))
         (And space (And (Regex lw (Seq (Lit CHR ''$'') (Plus NonSpace))) space)))))"

definition block_header :: parser where
  \<comment> \<open>the three header shapes, \<open>.leaveWhitespace()\<close> applied to all of them\<close>
  "block_header =
     Or [Group (And space (And (key True) (location_statement True))),
         Group (if_statement True),
         Group (map_statement True)]"

definition statement :: "bool \<Rightarrow> parser" where
  \<comment> \<open>\<open>Group(comment | assignment)\<close>\<close>
  "statement lw = Group (MatchFirst (comment lw) (assignment lw))"

section \<open>Every element consumes text, never produces it\<close>

lemma repeat_from_length:
  "(\<And>s' r'. s' \<in> set ss \<Longrightarrow> length s' < n \<Longrightarrow> r' \<in> set (k s') \<Longrightarrow> length r' \<le> length s') \<Longrightarrow>
   r \<in> set (repeat_from n k ss) \<Longrightarrow> \<exists>s' \<in> set ss. length r \<le> length s'"
  by (induction ss) (auto split: if_splits)

lemma rmatch_length: "r' \<in> set (rmatch re s) \<Longrightarrow> length r' \<le> length s"
proof (induction re s arbitrary: r' rule: rmatch.induct)
  case (5 a b s)
  then show ?case by fastforce
next
  case (7 a s)
  have "\<exists>s' \<in> set (rmatch a s). length r' \<le> length s'"
    if "r' \<in> set (repeat_from (length s) (rmatch (Star a)) (rmatch a s))"
    using that 7(2)
    by (intro repeat_from_length [of "rmatch a s" "length s" "rmatch (Star a)"]) auto
  with 7(1,3) show ?case
    by (auto simp del: rmatch.simps(7,8) simp: rmatch.simps(7) [of a s]) (meson le_trans)
next
  case (8 a s)
  have "\<exists>s' \<in> set (rmatch a s). length r' \<le> length s'"
    if "r' \<in> set (repeat_from (length s) (rmatch (Star a)) (rmatch a s))"
    using that 8(2)
    by (intro repeat_from_length [of "rmatch a s" "length s" "rmatch (Star a)"]) auto
  with 8(1,3) show ?case
    by (auto simp del: rmatch.simps(7,8) simp: rmatch.simps(8) [of a s]) (meson le_trans)
qed (auto split: list.splits if_splits)

definition noninc :: "parser \<Rightarrow> bool" where
  "noninc p = (\<forall>s t r. p s = Some (t, r) \<longrightarrow> length r \<le> length s)"

definition progress :: "parser \<Rightarrow> bool" where
  "progress p = (\<forall>s t r. p s = Some (t, r) \<longrightarrow> length r < length s)"

lemma preParse_length: "length (preParse lw s) \<le> length s"
  by (simp add: preParse_def length_dropWhile_le)

lemma progress_noninc: "progress p \<Longrightarrow> noninc p"
  by (fastforce simp: progress_def noninc_def)

lemma takeWhile_progress:
  "takeWhile P s \<noteq> [] \<Longrightarrow> length (drop (length (takeWhile P s)) s) < length s"
  by (cases s) (auto simp: length_takeWhile_le)

lemma progress_Literal: "m \<noteq> [] \<Longrightarrow> progress (Literal lw m)"
proof (unfold progress_def, intro allI impI)
  fix s t r assume m: "m \<noteq> []" and a: "Literal lw m s = Some (t, r)"
  let ?s = "preParse lw s"
  from a have tk: "take (length m) ?s = m" and r: "r = drop (length m) ?s"
    by (auto simp: Literal_def Let_def split: if_splits)
  from tk m have "length m \<le> length ?s"
    by (metis length_take min.cobounded1)
  with m r have "length r < length ?s" by (cases m) auto
  with preParse_length [of lw s] show "length r < length s" by simp
qed

lemma progress_Word: "progress (Word lw cs)"
proof (unfold progress_def, intro allI impI)
  fix s t r assume a: "Word lw cs s = Some (t, r)"
  let ?s = "preParse lw s"
  from a have "length r < length ?s"
    using takeWhile_progress [of "\<lambda>c. c \<in> set cs" ?s]
    by (auto simp: Word_def Let_def split: if_splits)
  with preParse_length [of lw s] show "length r < length s" by simp
qed

lemma progress_CharsNotIn: "progress (CharsNotIn cs)"
  using takeWhile_progress [of "\<lambda>c. c \<notin> set cs"]
  by (auto simp: progress_def CharsNotIn_def Let_def split: if_splits)

lemma progress_White: "progress White"
  using takeWhile_progress [of "\<lambda>c. c \<in> set default_white"]
  by (auto simp: progress_def White_def Let_def split: if_splits)

lemma noninc_Regex: "noninc (Regex lw re)"
proof (unfold noninc_def, intro allI impI)
  fix s t r assume a: "Regex lw re s = Some (t, r)"
  then have "r \<in> set (rmatch re (preParse lw s))"
    by (auto simp: Regex_def Let_def split: list.splits)
  from rmatch_length [OF this] preParse_length [of lw s] show "length r \<le> length s" by simp
qed

lemma noninc_Optional: "noninc p \<Longrightarrow> noninc (Optional p)"
  by (auto simp: noninc_def Optional_def split: option.splits)

lemma noninc_Optional_default: "noninc p \<Longrightarrow> noninc (Optional_default p d)"
  by (auto simp: noninc_def Optional_default_def split: option.splits)

lemma noninc_And: "noninc p \<Longrightarrow> noninc q \<Longrightarrow> noninc (And p q)"
  by (fastforce simp: noninc_def And_def split: option.splits)

lemma progress_And1: "progress p \<Longrightarrow> noninc q \<Longrightarrow> progress (And p q)"
  by (fastforce simp: noninc_def progress_def And_def split: option.splits)

lemma progress_And2: "noninc p \<Longrightarrow> progress q \<Longrightarrow> progress (And p q)"
  by (fastforce simp: noninc_def progress_def And_def split: option.splits)

lemma progress_MatchFirst: "progress p \<Longrightarrow> progress q \<Longrightarrow> progress (MatchFirst p q)"
  by (auto simp: progress_def MatchFirst_def split: option.splits)

lemma progress_Group: "progress p \<Longrightarrow> progress (Group p)"
  by (auto simp: progress_def Group_def split: option.splits)

lemma progress_Suppress: "progress p \<Longrightarrow> progress (Suppress p)"
  by (auto simp: progress_def Suppress_def split: option.splits)

lemma Or_best_progress:
  "\<forall>e \<in> set es. progress e \<Longrightarrow> (\<forall>t r. best = Some (t, r) \<longrightarrow> length r < length s) \<Longrightarrow>
   Or_best es s best = Some (t, r) \<Longrightarrow> length r < length s"
proof (induction es arbitrary: best)
  case Nil
  then show ?case by simp
next
  case (Cons e es)
  from Cons.prems(1) have pe: "progress e" and pes: "\<forall>e \<in> set es. progress e" by simp_all
  show ?case
  proof (cases "e s")
    case None
    with Cons.prems(3) have "Or_best es s best = Some (t, r)" by simp
    from Cons.IH [OF pes Cons.prems(2) this] show ?thesis .
  next
    case (Some a)
    obtain t' r' where a: "a = (t', r')" by (cases a)
    from pe Some a have lt: "length r' < length s" by (auto simp: progress_def)
    have "Or_best es s (Some (t', r')) = Some (t, r) \<or> Or_best es s best = Some (t, r)"
      using Cons.prems(3) Some a by (cases best) (auto split: if_splits)
    then have "\<exists>b. Or_best es s b = Some (t, r) \<and>
        (\<forall>t r. b = Some (t, r) \<longrightarrow> length r < length s)"
      using Cons.prems(2) lt by blast
    then obtain b where "Or_best es s b = Some (t, r)"
      and "\<forall>t r. b = Some (t, r) \<longrightarrow> length r < length s" by blast
    from Cons.IH [OF pes this(2) this(1)] show ?thesis .
  qed
qed

lemma progress_Or: "\<forall>e \<in> set es. progress e \<Longrightarrow> progress (Or es)"
  unfolding progress_def [of "Or es"] Or_def
  using Or_best_progress [of es None] by blast

lemma noninc_space: "noninc space"
  by (simp add: space_def noninc_Optional progress_noninc progress_White)

lemma progress_key: "progress (key lw)"
  by (simp add: key_def progress_Word)

lemma progress_modifier: "progress (modifier lw)"
  by (simp add: modifier_def progress_MatchFirst progress_Literal)

lemma noninc_location_statement: "noninc (location_statement lw)"
  unfolding location_statement_def location_def
  by (intro noninc_And noninc_space noninc_Optional progress_noninc [OF progress_modifier]
        progress_noninc [OF progress_CharsNotIn])

lemma progress_generic: "progress (And space (And (key lw) (location_statement lw)))"
  by (intro progress_And2 [OF noninc_space] progress_And1 progress_key
        noninc_location_statement)

lemma progress_if_statement: "progress (if_statement lw)"
  unfolding if_statement_def
  by (rule progress_And2 [OF noninc_space], rule progress_And1, rule progress_Literal, simp,
      intro noninc_And noninc_space noninc_Regex)

lemma progress_map_statement: "progress (map_statement lw)"
  unfolding map_statement_def
  by (rule progress_And2 [OF noninc_space], rule progress_And1, rule progress_Literal, simp,
      intro noninc_And noninc_space noninc_Regex)

lemma progress_block_header: "progress block_header"
  unfolding block_header_def
  by (rule progress_Or)
     (simp add: progress_Group progress_generic progress_if_statement progress_map_statement)

lemma progress_left_bracket: "progress left_bracket"
  by (simp add: left_bracket_def progress_Suppress progress_Literal)

lemma progress_comment: "progress (comment lw)"
  unfolding comment_def restOfLine_def
  by (rule progress_And2 [OF noninc_space], rule progress_And1, rule progress_Literal, simp,
      rule noninc_Regex)

lemma progress_assignment: "progress (assignment lw)"
  unfolding assignment_def semicolon_def value_def
  by (rule progress_And2 [OF noninc_space], rule progress_And1, rule progress_key,
      rule noninc_And, rule noninc_Optional_default, rule noninc_And, rule noninc_space,
      rule noninc_Regex, rule progress_noninc, rule progress_Suppress, rule progress_Literal,
      simp)

lemma progress_statement: "progress (statement lw)"
  by (simp add: statement_def progress_Group progress_MatchFirst progress_comment
      progress_assignment)

section \<open>Blocks and the script\<close>

text \<open>
  \<open>block\<close> is the \<open>Forward\<close> of the grammar: header, \<open>{\<close>, the grouped body
  \<open>ZeroOrMore(Group(comment | assignment) | block) + space\<close>, and \<open>}\<close>.
  \<open>body_items\<close> is the \<open>ZeroOrMore\<close> loop: it stops at the first failure. Its test
  that an item consumed text is always true (\<open>block_length\<close> below); it makes
  the recursion well-founded.
\<close>

function block :: parser and body_items :: "string \<Rightarrow> tokens \<times> string" where
  "block s =
     (case block_header s of
        None \<Rightarrow> None
      | Some (h, s1) \<Rightarrow>
          (case left_bracket s1 of
             None \<Rightarrow> None
           | Some (lb, s2) \<Rightarrow>
               (case body_items s2 of
                  (ts, s3) \<Rightarrow>
                    (case space s3 of
                       None \<Rightarrow> None
                     | Some (sp, s4) \<Rightarrow>
                         (case right_bracket s4 of
                            None \<Rightarrow> None
                          | Some (rb, s5) \<Rightarrow> Some ([L (h @ lb @ [L (ts @ sp)] @ rb)], s5))))))"
| "body_items s =
     (case statement True s of
        Some (t, r) \<Rightarrow> (case body_items r of (ts, r') \<Rightarrow> (t @ ts, r'))
      | None \<Rightarrow>
          (case block s of
             None \<Rightarrow> ([], s)
           | Some (t, r) \<Rightarrow>
               if length r < length s
               then (case body_items r of (ts, r') \<Rightarrow> (t @ ts, r'))
               else ([], s)))"
  by pat_completeness auto
termination
proof (relation "measure (\<lambda>x. case x of Inl s \<Rightarrow> 2 * length s | Inr s \<Rightarrow> 2 * length s + 1)")
  fix s x2 x y x2a xa ya
  assume "block_header s = Some x2" "(x, y) = x2" "left_bracket y = Some x2a" "(xa, ya) = x2a"
  then have "length y < length s" "length ya < length y"
    using progress_block_header progress_left_bracket
    by (auto simp: progress_def)
  then show "(Inr ya, Inl s)
      \<in> measure (\<lambda>x. case x of Inl s \<Rightarrow> 2 * length s | Inr s \<Rightarrow> 2 * length s + 1)"
    by simp
next
  fix s x2 x y
  assume "statement True s = Some x2" "(x, y) = x2"
  then have "length y < length s"
    using progress_statement [of True] by (auto simp: progress_def)
  then show "(Inr y, Inr s)
      \<in> measure (\<lambda>x. case x of Inl s \<Rightarrow> 2 * length s | Inr s \<Rightarrow> 2 * length s + 1)"
    by simp
qed auto

declare block.simps [simp del] body_items.simps [simp del]

lemma noninc_right_bracket: "noninc right_bracket"
  unfolding right_bracket_def
  by (intro noninc_And noninc_space progress_noninc progress_Suppress progress_Literal) simp

lemma block_length: "block s = Some (t, r) \<Longrightarrow> length r < length s"
  and body_items_length: "body_items s' = (ts, r') \<Longrightarrow> length r' \<le> length s'"
proof (induction s and s' arbitrary: t r and ts r' rule: block_body_items.induct)
  case (1 s)
  from "1.prems" obtain h s1 lb s2 bs s3 sp s4 rb where
    h: "block_header s = Some (h, s1)" and lb: "left_bracket s1 = Some (lb, s2)" and
    bi: "body_items s2 = (bs, s3)" and sp: "space s3 = Some (sp, s4)" and
    rb: "right_bracket s4 = Some (rb, r)"
    unfolding block.simps [of s] by (auto split: option.splits prod.splits)
  from h progress_block_header have "length s1 < length s" by (auto simp: progress_def)
  moreover from lb progress_left_bracket have "length s2 < length s1"
    by (auto simp: progress_def)
  moreover have "length s3 \<le> length s2"
    using "1.IH" h lb bi by blast
  moreover from sp noninc_space have "length s4 \<le> length s3" by (auto simp: noninc_def)
  moreover from rb noninc_right_bracket have "length r \<le> length s4"
    by (auto simp: noninc_def)
  ultimately show ?case by simp
next
  case (2 s)
  note b = "2.prems"
  show ?case
  proof (cases "statement True s")
    case (Some a)
    obtain t1 r1 where a: "a = (t1, r1)" by (cases a)
    obtain ts1 r2 where bi: "body_items r1 = (ts1, r2)" by (cases "body_items r1")
    from Some a progress_statement [of True] have "length r1 < length s"
      by (auto simp: progress_def)
    moreover have "length r2 \<le> length r1"
      using "2.IH"(3) Some a bi by blast
    moreover from b Some a bi have "r' = r2" by (simp add: body_items.simps [of s])
    ultimately show ?thesis by simp
  next
    case None
    show ?thesis
    proof (cases "block s")
      case None
      with b \<open>statement True s = None\<close> show ?thesis
        by (simp add: body_items.simps [of s])
    next
      case (Some a)
      obtain t1 r1 where a: "a = (t1, r1)" by (cases a)
      show ?thesis
      proof (cases "length r1 < length s")
        case True
        obtain ts1 r2 where bi: "body_items r1 = (ts1, r2)" by (cases "body_items r1")
        have "length r2 \<le> length r1"
          using "2.IH"(2) None Some a True bi by blast
        moreover from b None Some a bi True have "r' = r2"
          by (simp add: body_items.simps [of s])
        ultimately show ?thesis using True by simp
      next
        case False
        with b None Some a show ?thesis by (simp add: body_items.simps [of s])
      qed
    qed
  qed
qed

lemma progress_block: "progress block"
  using block_length by (auto simp: progress_def)


definition top_item :: parser where
  \<comment> \<open>\<open>Group(comment | assignment) ^ block\<close>\<close>
  "top_item = Or [statement False, block]"

lemma progress_top_item: "progress top_item"
  unfolding top_item_def by (rule progress_Or) (simp add: progress_statement progress_block)

text \<open>
  pyparsing is a library outside this repository. Whether the \<open>Or\<close> of the top-level
  items skips whitespace before an item is decided inside the library, by the attributes
  \<open>callPreparse\<close> and \<open>skipWhitespace\<close> of that \<open>Or\<close>, and nothing in the repository
  settles it. It is the parameter \<open>or_skips\<close> of \<open>more_items\<close>, \<open>script\<close> and
  \<open>as_list\<close>. With \<open>False\<close> the whitespace between two top-level items is the
  first token of the second item; with \<open>True\<close> it is skipped before the item, and kept
  only at the end of the text, where no item follows. Every result on the parser below
  is proved for both values.
\<close>

function more_items :: "bool \<Rightarrow> string \<Rightarrow> tokens \<times> string" where
  \<comment> \<open>the loop of \<open>OneOrMore\<close> after its first item\<close>
  "more_items or_skips s =
     (case top_item (preParse (\<not> or_skips) s) of
        None \<Rightarrow> ([], s)
      | Some (t, r) \<Rightarrow> (case more_items or_skips r of (ts, r') \<Rightarrow> (t @ ts, r')))"
  by pat_completeness auto
termination
proof (relation "measure (\<lambda>(or_skips, s). length s)")
  fix or_skips s x2 x y
  assume "top_item (preParse (\<not> or_skips) s) = Some x2" "(x, y) = x2"
  then have "length y < length (preParse (\<not> or_skips) s)"
    using progress_top_item by (auto simp: progress_def)
  with preParse_length [of "\<not> or_skips" s]
  show "((or_skips, y), (or_skips, s)) \<in> measure (\<lambda>(or_skips, s). length s)" by simp
qed simp

declare more_items.simps [simp del]

definition script :: "bool \<Rightarrow> string \<Rightarrow> tokens option" where
  \<comment> \<open>\<open>OneOrMore(...) + space + stringEnd\<close>; this \<open>And\<close> skips whitespace before its
      first element, as any \<open>And\<close> whose first element does\<close>
  "script or_skips s =
     (case top_item (preParse False s) of
        None \<Rightarrow> None
      | Some (t, r) \<Rightarrow>
          (case more_items or_skips r of
             (ts, r1) \<Rightarrow>
               (case space r1 of
                  None \<Rightarrow> None
                | Some (sp, r2) \<Rightarrow>
                    (case stringEnd r2 of
                       None \<Rightarrow> None
                     | Some (e, r3) \<Rightarrow> Some (t @ ts @ sp @ e)))))"

definition as_list :: "bool \<Rightarrow> string \<Rightarrow> tokens option" where
  "as_list or_skips source = script or_skips source"

lemma between_top_level_items:
  "as_list False ''a;\<newline>b;'' = Some [L [S ''a'', S ''''], L [S ''\<newline>'', S ''b'', S '''']]"
  "as_list True ''a;\<newline>b;'' = Some [L [S ''a'', S ''''], L [S ''b'', S '''']]"
  by code_simp+

section \<open>Directives without a value\<close>

text \<open>
  C3. A directive with no value before its semicolon, such as \<open>break;\<close>, is claimed to
  record the value as absent (\<open>None\<close>). The grammar asks for that with
  \<open>Optional(space + value, default=None)\<close>, but \<open>value\<close> matches the empty string, so
  the optional part never fails and the default is never used: the node holds the empty
  string.
\<close>

theorem no_value_directive_holds_empty_string:
  "as_list or_skips ''break;'' = Some [L [S ''break'', S '''']]"
  by (induct or_skips) code_simp+

section \<open>Match modifiers of location blocks\<close>

lemma takeWhile_run:
  "(\<And>x. x \<in> set xs \<Longrightarrow> P x) \<Longrightarrow> (ys = [] \<or> \<not> P (hd ys)) \<Longrightarrow>
   takeWhile P (xs @ ys) = xs"
  by (cases ys) (auto simp: takeWhile_append2)

lemma White_run:
  assumes "set ws \<subseteq> set default_white" and "ws \<noteq> []"
    and "r = [] \<or> hd r \<notin> set default_white"
  shows "White (ws @ r) = Some ([S ws], r)"
proof -
  have "takeWhile (\<lambda>c. c \<in> set default_white) (ws @ r) = ws"
    using assms by (intro takeWhile_run) auto
  with assms(2) show ?thesis by (simp add: White_def Let_def)
qed

lemma White_none: "r = [] \<or> hd r \<notin> set default_white \<Longrightarrow> White r = None"
  by (cases r) (auto simp: White_def)

definition ws_token :: "string \<Rightarrow> tokens" where
  \<comment> \<open>what \<open>space\<close> produces for a run of whitespace: nothing for the empty run\<close>
  "ws_token ws = (if ws = [] then [] else [S ws])"

lemma space_run:
  "set ws \<subseteq> set default_white \<Longrightarrow> (r = [] \<or> hd r \<notin> set default_white) \<Longrightarrow>
   space (ws @ r) = Some (ws_token ws, r)"
  using White_run [of ws r] White_none [of r]
  by (auto simp: space_def Optional_def ws_token_def)

lemma Word_run:
  assumes "k \<noteq> []" and "set k \<subseteq> set cs" and "r = [] \<or> hd r \<notin> set cs"
  shows "Word True cs (k @ r) = Some ([S k], r)"
proof -
  have "takeWhile (\<lambda>c. c \<in> set cs) (k @ r) = k"
    using assms by (intro takeWhile_run) auto
  with assms(1) show ?thesis by (simp add: Word_def preParse_def Let_def)
qed

lemma And_Some:
  "p s = Some (t1, s1) \<Longrightarrow> q s1 = Some (t2, s2) \<Longrightarrow> And p q s = Some (t1 @ t2, s2)"
  by (simp add: And_def)

lemma And_None2: "p s = Some (t1, s1) \<Longrightarrow> q s1 = None \<Longrightarrow> And p q s = None"
  by (simp add: And_def)

lemma modifier_tilde_star: "modifier True (''~*'' @ r) = Some ([S ''~*''], r)"
  by (simp add: modifier_def MatchFirst_def Literal_def preParse_def)

lemma white_not_key: "c \<in> set default_white \<Longrightarrow> c \<notin> set (alphanums @ ''_/+-.'')"
  by (auto simp: default_white_def alphanums_def)

lemma key_not_white: "c \<in> set (alphanums @ ''_/+-.'') \<Longrightarrow> c \<notin> set default_white"
  using white_not_key by blast

lemma generic_header_tilde_star:
  assumes "k \<noteq> []" and "set k \<subseteq> set (alphanums @ ''_/+-.'')"
    and "set ws0 \<subseteq> set default_white" and "set ws \<subseteq> set default_white"
    and "Optional (And space (And location space)) r = Some (t, r')"
  shows "And space (And (key True) (location_statement True)) (ws0 @ k @ ws @ ''~*'' @ r) =
    Some (ws_token ws0 @ [S k] @ ws_token ws @ [S ''~*''] @ t, r')"
proof -
  let ?rest = "ws @ ''~*'' @ r"
  have hdk: "hd (k @ ?rest) \<notin> set default_white"
    using assms(1,2) key_not_white [of "hd k"] by (cases k) auto
  have sp0: "space (ws0 @ k @ ?rest) = Some (ws_token ws0, k @ ?rest)"
    using hdk assms(1,3) by (intro space_run) auto
  have "hd ?rest \<notin> set (alphanums @ ''_/+-.'')"
    using assms(4) white_not_key [of "hd ws"]
    by (cases ws) (auto simp: alphanums_def)
  then have ky: "key True (k @ ?rest) = Some ([S k], ?rest)"
    unfolding key_def using assms(1,2) by (intro Word_run) auto
  have "hd (''~*'' @ r) \<notin> set default_white" by (simp add: default_white_def)
  then have sp1: "space (ws @ ''~*'' @ r) = Some (ws_token ws, ''~*'' @ r)"
    using assms(4) by (intro space_run) auto
  have md: "Optional (modifier True) (''~*'' @ r) = Some ([S ''~*''], r)"
    using modifier_tilde_star [of r] by (simp add: Optional_def)
  have ls: "location_statement True ?rest = Some (ws_token ws @ [S ''~*''] @ t, r')"
    unfolding location_statement_def
    by (rule And_Some [where p = space, OF sp1],
        rule And_Some [where p = "Optional (modifier True)"
          and q = "Optional (And space (And location space))", OF md assms(5)])
  show ?thesis
    by (rule And_Some [where p = space, OF sp0],
        rule And_Some [where p = "key True" and q = "location_statement True", OF ky ls])
qed

lemma not_if_or_map:
  assumes "set ws0 \<subseteq> set default_white"
  shows "if_statement True (ws0 @ ''location'' @ r) = None"
    and "map_statement True (ws0 @ ''location'' @ r) = None"
proof -
  have sp0: "space (ws0 @ ''location'' @ r) = Some (ws_token ws0, ''location'' @ r)"
    using assms by (intro space_run) (auto simp: default_white_def)
  have "And (Literal True ''if'') q (''location'' @ r) = None" for q
    by (simp add: And_def Literal_def preParse_def)
  then show "if_statement True (ws0 @ ''location'' @ r) = None"
    unfolding if_statement_def by (intro And_None2 [where p = space, OF sp0])
  have "And (Literal True ''map'') q (''location'' @ r) = None" for q
    by (simp add: And_def Literal_def preParse_def)
  then show "map_statement True (ws0 @ ''location'' @ r) = None"
    unfolding map_statement_def by (intro And_None2 [where p = space, OF sp0])
qed

text \<open>
  C9. In the header of a \<open>location\<close> block in which the key is followed, after any
  whitespace, by \<open>~*\<close>, the tokens are the leading whitespace if any, the key, the
  whitespace if any, and the modifier \<open>~*\<close>; the optional location is parsed from the
  text after \<open>~*\<close>. The modifier is never \<open>~\<close> with a location that starts with
  \<open>*\<close>: \<open>modifier\<close> tries \<open>~*\<close> before \<open>~\<close>.
\<close>

theorem modifier_tilde_star_precedence:
  assumes "set ws0 \<subseteq> set default_white" and "set ws \<subseteq> set default_white"
  shows "block_header (ws0 @ ''location'' @ ws @ ''~*'' @ r) =
    map_option
      (\<lambda>(t, r'). ([L (ws_token ws0 @ [S ''location''] @ ws_token ws @ [S ''~*''] @ t)], r'))
      (Optional (And space (And location space)) r)"
proof -
  let ?s = "ws0 @ ''location'' @ ws @ ''~*'' @ r"
  obtain t r' where opt: "Optional (And space (And location space)) r = Some (t, r')"
    by (cases "And space (And location space) r") (auto simp: Optional_def)
  have k: "''location'' \<noteq> []" "set ''location'' \<subseteq> set (alphanums @ ''_/+-.'')"
    by (simp_all add: alphanums_def)
  have g: "Group (And space (And (key True) (location_statement True))) ?s =
      Some ([L (ws_token ws0 @ [S ''location''] @ ws_token ws @ [S ''~*''] @ t)], r')"
    using generic_header_tilde_star [OF k assms opt] by (simp add: Group_def)
  have i: "Group (if_statement True) ?s = None"
    using not_if_or_map(1) [OF assms(1), of "ws @ ''~*'' @ r"] by (simp add: Group_def)
  have m: "Group (map_statement True) ?s = None"
    using not_if_or_map(2) [OF assms(1), of "ws @ ''~*'' @ r"] by (simp add: Group_def)
  show ?thesis
    unfolding block_header_def Or_def using g i m opt by simp
qed

theorem modifier_tilde_star_precedence_witness:
  "as_list False (''location ~* '' @ [CHR 0x5C] @ ''.php$ {\<newline>}\<newline>'') =
     Some [L [L [S ''location'', S '' '', S ''~*'', S '' '', S ([CHR 0x5C] @ ''.php$''), S '' ''],
              L [S ''\<newline>'']], S ''\<newline>''] \<and>
   as_list True (''location ~* '' @ [CHR 0x5C] @ ''.php$ {\<newline>}\<newline>'') =
     Some [L [L [S ''location'', S '' '', S ''~*'', S '' '', S ([CHR 0x5C] @ ''.php$''), S '' ''],
              L [S ''\<newline>'']], S ''\<newline>''] \<and>
   block_header ([] @ ''location'' @ '' '' @ ''~*'' @ ('' '' @ [CHR 0x5C] @ ''.php$ {\<newline>}\<newline>'')) =
     Some ([L [S ''location'', S '' '', S ''~*'', S '' '', S ([CHR 0x5C] @ ''.php$''), S '' '']],
           ''{\<newline>}\<newline>'')"
proof (intro conjI)
  show "as_list False (''location ~* '' @ [CHR 0x5C] @ ''.php$ {\<newline>}\<newline>'') =
     Some [L [L [S ''location'', S '' '', S ''~*'', S '' '', S ([CHR 0x5C] @ ''.php$''), S '' ''],
              L [S ''\<newline>'']], S ''\<newline>'']"
    by code_simp
next
  show "as_list True (''location ~* '' @ [CHR 0x5C] @ ''.php$ {\<newline>}\<newline>'') =
     Some [L [L [S ''location'', S '' '', S ''~*'', S '' '', S ([CHR 0x5C] @ ''.php$''), S '' ''],
              L [S ''\<newline>'']], S ''\<newline>'']"
    by code_simp
next
  have opt: "Optional (And space (And location space))
        ('' '' @ [CHR 0x5C] @ ''.php$ {\<newline>}\<newline>'') =
      Some ([S '' '', S ([CHR 0x5C] @ ''.php$''), S '' ''], ''{\<newline>}\<newline>'')"
    by code_simp
  have w: "set [] \<subseteq> set default_white" "set '' '' \<subseteq> set default_white"
    by (simp_all add: default_white_def)
  show "block_header
       ([] @ ''location'' @ '' '' @ ''~*'' @ ('' '' @ [CHR 0x5C] @ ''.php$ {\<newline>}\<newline>'')) =
     Some ([L [S ''location'', S '' '', S ''~*'', S '' '', S ([CHR 0x5C] @ ''.php$''), S '' '']],
           ''{\<newline>}\<newline>'')"
    using modifier_tilde_star_precedence [OF w,
        of "'' '' @ [CHR 0x5C] @ ''.php$ {\<newline>}\<newline>''"] opt
    by (simp add: ws_token_def)
qed

section \<open>Quoted values\<close>

text \<open>
  C8. A semicolon inside a pair of quotes must not end the directive. The value pattern
  tries a double-quoted span, then a single-quoted span, then one ordinary character, and
  repeats; so a double-quoted span that comes directly after a single-quoted one is not
  tried as a span: its opening quote is taken as the ordinary character. On the text
  \<open>a 'b'"c;d";\<close> the directive ends at the quoted semicolon, with the value
  \<open>'b'"c\<close>, and the rest \<open>d";\<close> becomes a directive of its own. (With the double
  quotes alone, \<open>a "c;d";\<close>, the span is absorbed.)
\<close>

theorem quoted_semicolon_ends_directive:
  "as_list or_skips
       (''a '' @ [CHR 0x27] @ ''b'' @ [CHR 0x27] @ [CHR 0x22] @ ''c;d'' @ [CHR 0x22] @ '';'') =
     Some [L [S ''a'', S '' '', S ([CHR 0x27] @ ''b'' @ [CHR 0x27] @ [CHR 0x22] @ ''c'')],
           L [S ''d'', S [CHR 0x22]]] \<and>
   as_list or_skips (''a '' @ [CHR 0x22] @ ''c;d'' @ [CHR 0x22] @ '';'') =
     Some [L [S ''a'', S '' '', S ([CHR 0x22] @ ''c;d'' @ [CHR 0x22])]]"
  by (induct or_skips) code_simp+

section \<open>Python values and objects\<close>

text \<open>
  \<open>UnspacedList\<close> is a list subclass with an attribute \<open>spaced\<close>; its elements and the
  elements of \<open>spaced\<close> are strings, \<open>None\<close>, other objects, or references to list
  objects. Nested lists are shared by reference (the constructor stores the \<open>spaced\<close>
  list of a sublist inside the \<open>spaced\<close> list of its parent), so objects live in a
  heap: an address is an index into the list of objects, a new object is appended.
\<close>

type_synonym addr = nat

datatype val = VStr string | VNone | VInt int | VRef addr

datatype obj =
    PyList "val list"
  | Unspaced "val list" addr  \<comment> \<open>the list itself (the logical view), and \<open>self.spaced\<close>\<close>

type_synonym heap = "obj list"

datatype error = IndexError | TypeError

datatype 'a result = Return 'a heap | Raise error heap

definition obj_at :: "heap \<Rightarrow> addr \<Rightarrow> obj option" where
  "obj_at h a = (if a < length h then Some (h ! a) else None)"

fun list_items :: "obj \<Rightarrow> val list" where
  \<comment> \<open>what iterating over a list object gives\<close>
  "list_items (PyList xs) = xs"
| "list_items (Unspaced xs sp) = xs"

fun spacey :: "val \<Rightarrow> bool" where
  \<comment> \<open>\<open>(isinstance(x, str) and x.isspace()) or x == ''\<close>\<close>
  "spacey (VStr s) = list_all (\<lambda>c. c \<in> set py_whitespace) s"
| "spacey v = False"

fun is_str :: "val \<Rightarrow> bool" where
  "is_str (VStr s) = True"
| "is_str v = False"

fun space_out :: "val list \<Rightarrow> val list" where
  \<comment> \<open>\<open>reduce(lambda x, y: x + [" ", y], rest, first)\<close> with
      \<open>first, rest = spaced[:1], spaced[1:]\<close>\<close>
  "space_out [] = []"
| "space_out (x # rest) = x # concat (map (\<lambda>y. [VStr '' '', y]) rest)"

definition delete_at :: "nat \<Rightarrow> 'a list \<Rightarrow> 'a list" where
  "delete_at i xs = take i xs @ drop (Suc i) xs"

section \<open>\<open>copy.deepcopy\<close> and the constructor of \<open>UnspacedList\<close>\<close>

text \<open>
  The constructor and \<open>__deepcopy__\<close> call each other, and both recurse into nested
  lists. The first argument bounds the depth of these calls; \<open>None\<close> means the bound
  was too small or a reference dangles. \<open>deepcopy\<close> threads the memo of
  \<open>copy.deepcopy\<close> (old address, address of the copy); a list is entered in the memo
  once its elements are copied, so a list that contains itself is outside the model.

  The object under construction cannot be reached from anywhere else before the
  constructor returns. \<open>init_parts\<close> therefore keeps its two lists as values;
  \<open>init\<close> stores them as two new objects. Nothing in this section changes an object
  that exists already.
\<close>

function (sequential) deepcopy :: "nat \<Rightarrow> heap \<Rightarrow> (addr \<times> addr) list \<Rightarrow> val
      \<Rightarrow> (heap \<times> (addr \<times> addr) list \<times> val) option"
  and deepcopy_list :: "nat \<Rightarrow> heap \<Rightarrow> (addr \<times> addr) list \<Rightarrow> val list
      \<Rightarrow> (heap \<times> (addr \<times> addr) list \<times> val list) option"
  and init_parts :: "nat \<Rightarrow> heap \<Rightarrow> val list \<Rightarrow> bool \<Rightarrow> (heap \<times> val list \<times> val list) option"
  and init_loop :: "nat \<Rightarrow> heap \<Rightarrow> bool \<Rightarrow> val list \<Rightarrow> nat \<Rightarrow> val list \<Rightarrow> val list
      \<Rightarrow> (heap \<times> val list \<times> val list) option"
  where
  "deepcopy n h m (VStr s) = Some (h, m, VStr s)"
| "deepcopy n h m VNone = Some (h, m, VNone)"
| "deepcopy n h m (VInt k) = Some (h, m, VInt k)"
| "deepcopy 0 h m (VRef a) = None"
| "deepcopy (Suc n) h m (VRef a) =
     (case map_of m a of
        Some b \<Rightarrow> Some (h, m, VRef b)
      | None \<Rightarrow>
          (case obj_at h a of
             None \<Rightarrow> None
           | Some (PyList xs) \<Rightarrow>
               (case deepcopy_list n h m xs of
                  None \<Rightarrow> None
                | Some (h1, m1, ys) \<Rightarrow>
                    Some (h1 @ [PyList ys], (a, length h1) # m1, VRef (length h1)))
           | Some (Unspaced xs sp) \<Rightarrow>
               \<comment> \<open>\<open>__deepcopy__\<close>: \<open>l = UnspacedList(self[:])\<close>,
                   \<open>l.spaced = copy.deepcopy(self.spaced)\<close>\<close>
               (case init_parts n h xs False of
                  None \<Rightarrow> None
                | Some (h1, items, unused) \<Rightarrow>
                    (case deepcopy n h1 [] (VRef sp) of
                       Some (h2, m2, VRef sp') \<Rightarrow>
                         Some (h2 @ [Unspaced items sp'], (a, length h2) # m, VRef (length h2))
                     | _ \<Rightarrow> None))))"
| "deepcopy_list n h m [] = Some (h, m, [])"
| "deepcopy_list n h m (x # xs) =
     (case deepcopy n h m x of
        None \<Rightarrow> None
      | Some (h1, m1, y) \<Rightarrow>
          (case deepcopy_list n h1 m1 xs of
             None \<Rightarrow> None
           | Some (h2, m2, ys) \<Rightarrow> Some (h2, m2, y # ys)))"
| "init_parts 0 h xs spaceout = None"
| "init_parts (Suc n) h xs spaceout =
     \<comment> \<open>\<open>self.spaced = copy.deepcopy(list(list_source))\<close>\<close>
     (case deepcopy_list n h [] xs of
        None \<Rightarrow> None
      | Some (h1, m1, ys) \<Rightarrow>
          init_loop n h1 spaceout xs (length xs) xs
            (if spaceout \<and> list_all is_str ys then VStr ''\<newline>'' # space_out ys else ys))"
| "init_loop n h spaceout xs 0 items spaced = Some (h, items, spaced)"
| "init_loop n h spaceout xs (Suc i) items spaced =
     \<comment> \<open>\<open>for i, entry in reversed(list(enumerate(self)))\<close>, at index \<open>i\<close>\<close>
     (case xs ! i of
        VRef a \<Rightarrow>
          (case obj_at h a of
             None \<Rightarrow> None
           | Some entry \<Rightarrow>
               (case init_parts n h (list_items entry) spaceout of
                  None \<Rightarrow> None
                | Some (h1, sub_items, sub_spaced) \<Rightarrow>
                    \<comment> \<open>the sublist: its \<open>spaced\<close> at \<open>length h1\<close>, itself after it\<close>
                    init_loop n (h1 @ [PyList sub_spaced, Unspaced sub_items (length h1)])
                      spaceout xs i
                      (if sub_items \<noteq> [] \<or> sub_spaced = []
                       then items[i := VRef (Suc (length h1))]
                       else delete_at i items)
                      (spaced[i := VRef (length h1)])))
      | entry \<Rightarrow>
          if spacey entry
          then init_loop n h spaceout xs i
                 (if VStr ''#'' \<notin> set (take i items) then delete_at i items else items) spaced
          else init_loop n h spaceout xs i items spaced)"
  by pat_completeness auto
termination
  by (relation "measures
        [\<lambda>x. case x of Inl (Inl (n, _)) \<Rightarrow> n | Inl (Inr (n, _)) \<Rightarrow> n
                | Inr (Inl (n, _)) \<Rightarrow> n | Inr (Inr (n, _)) \<Rightarrow> n,
         \<lambda>x. case x of Inl (Inl _) \<Rightarrow> 0 | Inl (Inr (n, h, m, xs)) \<Rightarrow> Suc (length xs)
                | Inr (Inl _) \<Rightarrow> 0 | Inr (Inr (n, h, so, xs, i, _)) \<Rightarrow> Suc i]")
     auto

definition init :: "nat \<Rightarrow> heap \<Rightarrow> val list \<Rightarrow> bool \<Rightarrow> (heap \<times> addr) option" where
  \<comment> \<open>\<open>UnspacedList(list_source, spaceout)\<close> for a list with the elements \<open>xs\<close>: the
      heap with the new object, and its address\<close>
  "init n h xs spaceout =
     (case init_parts n h xs spaceout of
        None \<Rightarrow> None
      | Some (h1, items, spaced) \<Rightarrow>
          Some (h1 @ [PyList spaced, Unspaced items (length h1)], Suc (length h1)))"

section \<open>Python's list operations\<close>

definition py_index :: "nat \<Rightarrow> int \<Rightarrow> nat option" where
  \<comment> \<open>the position an index means in a list of length \<open>n\<close>, for reading, assigning
      and deleting; \<open>None\<close> is \<open>IndexError\<close>\<close>
  "py_index n i =
     (let j = (if i < 0 then i + int n else i)
      in if 0 \<le> j \<and> j < int n then Some (nat j) else None)"

definition py_insert :: "'a list \<Rightarrow> int \<Rightarrow> 'a \<Rightarrow> 'a list" where
  \<comment> \<open>\<open>list.insert\<close> never fails: the position is clipped to the list\<close>
  "py_insert xs i x =
     (let n = int (length xs);
          j = (if i < 0 then i + n else i);
          k = nat (if j < 0 then 0 else if n < j then n else j)
      in take k xs @ x # drop k xs)"

fun iter_values :: "heap \<Rightarrow> val \<Rightarrow> (error + val list) option" where
  \<comment> \<open>the elements \<open>list.extend\<close> takes from its argument: those of a list, the
      characters of a string; anything else is not iterable\<close>
  "iter_values h (VRef a) = map_option (\<lambda>ob. Inr (list_items ob)) (obj_at h a)"
| "iter_values h (VStr s) = Some (Inr (map (\<lambda>c. VStr [c]) s))"
| "iter_values h v = Some (Inl TypeError)"

section \<open>The methods of \<open>UnspacedList\<close>\<close>

fun spaces_before_loop :: "val list \<Rightarrow> int \<Rightarrow> int \<Rightarrow> error + int" where
  \<comment> \<open>the loop of \<open>_spaces_before\<close>, at the rest of \<open>self.spaced\<close> from \<open>pos\<close> on;
      reading \<open>self.spaced[pos]\<close> past the end raises\<close>
  "spaces_before_loop [] idx spaces = (if idx = - 1 then Inr spaces else Inl IndexError)"
| "spaces_before_loop (x # xs) idx spaces =
     (if idx = - 1 then Inr spaces
      else if spacey x then spaces_before_loop xs idx (spaces + 1)
      else spaces_before_loop xs (idx - 1) spaces)"

definition spaces_before :: "val list \<Rightarrow> int \<Rightarrow> error + int" where
  "spaces_before spaced idx = spaces_before_loop spaced idx 0"

definition self_parts :: "heap \<Rightarrow> addr \<Rightarrow> (val list \<times> addr \<times> val list) option" where
  \<comment> \<open>\<open>self\<close>, the address of \<open>self.spaced\<close>, and \<open>self.spaced\<close>\<close>
  "self_parts h u =
     (case obj_at h u of
        Some (Unspaced items sp) \<Rightarrow>
          (case obj_at h sp of Some (PyList ys) \<Rightarrow> Some (items, sp, ys) | _ \<Rightarrow> None)
      | _ \<Rightarrow> None)"

definition coerce :: "nat \<Rightarrow> heap \<Rightarrow> val \<Rightarrow> bool \<Rightarrow> (heap \<times> val \<times> val) option" where
  \<comment> \<open>\<open>_coerce\<close>: the item for the list itself and the item for \<open>spaced\<close>\<close>
  "coerce n h inbound spaceout =
     (case inbound of
        VRef a \<Rightarrow>
          (case obj_at h a of
             None \<Rightarrow> None
           | Some (Unspaced xs sp) \<Rightarrow> Some (h, VRef a, VRef sp)
           | Some (PyList xs) \<Rightarrow>
               (case init n h xs spaceout of
                  None \<Rightarrow> None
                | Some (h1, u) \<Rightarrow>
                    (case obj_at h1 u of
                       Some (Unspaced items sp) \<Rightarrow> Some (h1, VRef u, VRef sp)
                     | _ \<Rightarrow> None)))
      | v \<Rightarrow> Some (h, v, v))"

definition insert_ul :: "nat \<Rightarrow> heap \<Rightarrow> addr \<Rightarrow> int \<Rightarrow> val \<Rightarrow> bool \<Rightarrow> val result option" where
  "insert_ul n h u i x spaceout =
     (case coerce n h x spaceout of
        None \<Rightarrow> None
      | Some (h1, item, spaced_item) \<Rightarrow>
          (case self_parts h1 u of
             None \<Rightarrow> None
           | Some (items, sp, ys) \<Rightarrow>
               (case spaces_before ys i of
                  Inl e \<Rightarrow> Some (Raise e h1)
                | Inr sb \<Rightarrow>
                    Some (Return VNone
                      ((h1[sp := PyList (py_insert ys (i + sb) spaced_item)])
                         [u := Unspaced (py_insert items i item) sp])))))"

definition append_ul :: "nat \<Rightarrow> heap \<Rightarrow> addr \<Rightarrow> val \<Rightarrow> bool \<Rightarrow> val result option" where
  "append_ul n h u x spaceout =
     (case coerce n h x spaceout of
        None \<Rightarrow> None
      | Some (h1, item, spaced_item) \<Rightarrow>
          (case self_parts h1 u of
             None \<Rightarrow> None
           | Some (items, sp, ys) \<Rightarrow>
               Some (Return VNone
                 ((h1[sp := PyList (ys @ [spaced_item])])
                    [u := Unspaced (items @ [item]) sp]))))"

definition extend :: "nat \<Rightarrow> heap \<Rightarrow> addr \<Rightarrow> val \<Rightarrow> bool \<Rightarrow> val result option" where
  "extend n h u x spaceout =
     (case coerce n h x spaceout of
        None \<Rightarrow> None
      | Some (h1, item, spaced_item) \<Rightarrow>
          (case self_parts h1 u of
             None \<Rightarrow> None
           | Some (items, sp, ys) \<Rightarrow>
               (case iter_values h1 spaced_item of
                  None \<Rightarrow> None
                | Some (Inl e) \<Rightarrow> Some (Raise e h1)
                | Some (Inr more_spaced) \<Rightarrow>
                    (let h2 = h1[sp := PyList (ys @ more_spaced)]
                     in case iter_values h2 item of
                          None \<Rightarrow> None
                        | Some (Inl e) \<Rightarrow> Some (Raise e h2)
                        | Some (Inr more) \<Rightarrow>
                            Some (Return VNone (h2[u := Unspaced (items @ more) sp]))))))"

definition add :: "nat \<Rightarrow> heap \<Rightarrow> addr \<Rightarrow> val \<Rightarrow> val result option" where
  \<comment> \<open>\<open>__add__\<close>: \<open>l = copy.deepcopy(self); l.extend(other); return l\<close>\<close>
  "add n h u other =
     (case deepcopy n h [] (VRef u) of
        Some (h1, m, VRef l) \<Rightarrow>
          (case extend n h1 l other False of
             None \<Rightarrow> None
           | Some (Raise e h2) \<Rightarrow> Some (Raise e h2)
           | Some (Return v h2) \<Rightarrow> Some (Return (VRef l) h2))
      | _ \<Rightarrow> None)"


definition delitem :: "heap \<Rightarrow> addr \<Rightarrow> int \<Rightarrow> val result option" where
  "delitem h u i =
     (case self_parts h u of
        None \<Rightarrow> None
      | Some (items, sp, ys) \<Rightarrow>
          (case spaces_before ys i of
             Inl e \<Rightarrow> Some (Raise e h)
           | Inr sb \<Rightarrow>
               (case py_index (length ys) (i + sb) of
                  None \<Rightarrow> Some (Raise IndexError h)
                | Some j \<Rightarrow>
                    (let h2 = h[sp := PyList (delete_at j ys)]
                     in case py_index (length items) i of
                          None \<Rightarrow> Some (Raise IndexError h2)
                        | Some k \<Rightarrow>
                            Some (Return VNone (h2[u := Unspaced (delete_at k items) sp]))))))"

definition getitem :: "heap \<Rightarrow> addr \<Rightarrow> int \<Rightarrow> (error + val) option" where
  \<comment> \<open>\<open>list.__getitem__\<close>, not overridden: an index into the logical view\<close>
  "getitem h u i =
     (case obj_at h u of
        None \<Rightarrow> None
      | Some ob \<Rightarrow>
          (case py_index (length (list_items ob)) i of
             None \<Rightarrow> Some (Inl IndexError)
           | Some k \<Rightarrow> Some (Inr (list_items ob ! k))))"

section \<open>\<open>RawNginxDumper\<close>\<close>

text \<open>
  The dumper reads the \<open>spaced\<close> list and changes only its own copies, so it is a
  function of the tree that the heap holds there; \<open>freeze\<close> reads that tree.
\<close>

fun freeze :: "nat \<Rightarrow> heap \<Rightarrow> val \<Rightarrow> node option"
  and freeze_list :: "nat \<Rightarrow> heap \<Rightarrow> val list \<Rightarrow> node list option" where
  "freeze n h (VStr s) = Some (S s)"
| "freeze n h VNone = Some N"
| "freeze n h (VInt k) = Some (I k)"
| "freeze 0 h (VRef a) = None"
| "freeze (Suc n) h (VRef a) =
     (case obj_at h a of
        None \<Rightarrow> None
      | Some ob \<Rightarrow> map_option L (freeze_list n h (list_items ob)))"
| "freeze_list n h [] = Some []"
| "freeze_list n h (x # xs) =
     (case freeze n h x of
        None \<Rightarrow> None
      | Some y \<Rightarrow> map_option ((#) y) (freeze_list n h xs))"

fun spacey_node :: "node \<Rightarrow> bool" where
  "spacey_node (S s) = list_all (\<lambda>c. c \<in> set py_whitespace) s"
| "spacey_node x = False"

definition strip :: "string \<Rightarrow> string" where
  "strip s =
     rev (dropWhile (\<lambda>c. c \<in> set py_whitespace)
       (rev (dropWhile (\<lambda>c. c \<in> set py_whitespace) s)))"

fun join :: "node list \<Rightarrow> error + string" where
  \<comment> \<open>\<open>"".join(key)\<close>: every element has to be a string\<close>
  "join [] = Inr []"
| "join (S s # xs) = (case join xs of Inl e \<Rightarrow> Inl e | Inr t \<Rightarrow> Inr (s @ t))"
| "join (x # xs) = Inl TypeError"

fun plus_str :: "error + string \<Rightarrow> node \<Rightarrow> error + string" where
  \<comment> \<open>\<open>+\<close> of a string and an element: a string, or \<open>TypeError\<close>\<close>
  "plus_str (Inl e) x = Inl e"
| "plus_str (Inr s) (S t) = Inr (s @ t)"
| "plus_str (Inr s) x = Inl TypeError"

fun dump :: "node \<Rightarrow> error + string"
  and dump_item :: "string \<Rightarrow> node \<Rightarrow> node list \<Rightarrow> error + string"
  and dump_all :: "node list \<Rightarrow> error + string" where
  "dump (S s) = Inr s"
| "dump N = Inl TypeError"
| "dump (I k) = Inl TypeError"
| "dump (L []) = Inl IndexError"
| "dump (L (S s # b)) =
     \<comment> \<open>\<open>if spacey(b[0]): indentation = b.pop(0)\<close>, and a list of nothing else is
         printed as it is\<close>
     (if spacey_node (S s)
      then (case b of [] \<Rightarrow> Inr s | k # b' \<Rightarrow> dump_item s k b')
      else dump_item [] (S s) b)"
| "dump (L (k # b)) = dump_item [] k b"
| "dump_item indentation k [] = Inl IndexError"
| "dump_item indentation (L ks) (values # b) =
     (case join ks of
        Inl e \<Rightarrow> Inl e
      | Inr header \<Rightarrow>
          (case values of
             L parameters \<Rightarrow>
               (case dump_all parameters of
                  Inl e \<Rightarrow> Inl e
                | Inr body \<Rightarrow> Inr (indentation @ header @ ''{'' @ body @ ''}''))
           | S s \<Rightarrow> Inr (indentation @ header @ ''{'' @ s @ ''}'')
           | _ \<Rightarrow> Inl TypeError))"
| "dump_item indentation k (values # b) =
     (if (case k of S s \<Rightarrow> strip s = ''#'' | _ \<Rightarrow> False)
      then plus_str (plus_str (Inr indentation) k) values
      else if values \<noteq> S [] \<and> spacey_node values
      then (case b of
              [] \<Rightarrow> Inl IndexError
            | v # b' \<Rightarrow>
                map_sum id (\<lambda>s. s @ '';'')
                  (plus_str (plus_str (plus_str (Inr indentation) k) values) v))
      else map_sum id (\<lambda>s. s @ '';'') (plus_str (plus_str (Inr indentation) k) values))"
| "dump_all [] = Inr []"
| "dump_all (x # xs) =
     (case dump x of
        Inl e \<Rightarrow> Inl e
      | Inr s \<Rightarrow> (case dump_all xs of Inl e \<Rightarrow> Inl e | Inr t \<Rightarrow> Inr (s @ t)))"

section \<open>\<open>loads\<close> and \<open>dumps\<close>\<close>

fun alloc :: "heap \<Rightarrow> node \<Rightarrow> heap \<times> val"
  and alloc_list :: "heap \<Rightarrow> node list \<Rightarrow> heap \<times> val list" where
  \<comment> \<open>the nested lists of \<open>asList()\<close> as objects\<close>
  "alloc h (S s) = (h, VStr s)"
| "alloc h N = (h, VNone)"
| "alloc h (I k) = (h, VInt k)"
| "alloc h (L xs) = (case alloc_list h xs of (h1, vs) \<Rightarrow> (h1 @ [PyList vs], VRef (length h1)))"
| "alloc_list h [] = (h, [])"
| "alloc_list h (x # xs) =
     (case alloc h x of
        (h1, v) \<Rightarrow> (case alloc_list h1 xs of (h2, vs) \<Rightarrow> (h2, v # vs)))"

definition loads :: "nat \<Rightarrow> bool \<Rightarrow> heap \<Rightarrow> string \<Rightarrow> (heap \<times> addr) option" where
  \<comment> \<open>\<open>UnspacedList(RawNginxParser(source).as_list())\<close>; \<open>None\<close> also when the
      text does not parse\<close>
  "loads n or_skips h source =
     (case as_list or_skips source of
        None \<Rightarrow> None
      | Some tree \<Rightarrow> (case alloc_list h tree of (h1, xs) \<Rightarrow> init n h1 xs False))"

definition dumps :: "nat \<Rightarrow> heap \<Rightarrow> addr \<Rightarrow> (error + string) option" where
  \<comment> \<open>\<open>str(RawNginxDumper(blocks.spaced))\<close>\<close>
  "dumps n h u =
     (case obj_at h u of
        Some (Unspaced items sp) \<Rightarrow>
          (case freeze n h (VRef sp) of
             Some (L blocks) \<Rightarrow> Some (dump_all blocks)
           | _ \<Rightarrow> None)
      | _ \<Rightarrow> None)"

section \<open>Round trip\<close>

definition round_trip :: "nat \<Rightarrow> bool \<Rightarrow> string \<Rightarrow> (error + string) option" where
  \<comment> \<open>\<open>dumps(loads(source))\<close>, in an empty heap\<close>
  "round_trip n or_skips source =
     (case loads n or_skips [] source of None \<Rightarrow> None | Some (h, u) \<Rightarrow> dumps n h u)"

lemma round_trip_scenarios:
  "round_trip 9 or_skips ''server {\<newline>  listen 80;\<newline>}\<newline>'' =
     Some (Inr ''server {\<newline>  listen 80;\<newline>}\<newline>'')"
  "round_trip 9 or_skips ''# hello world\<newline>'' = Some (Inr ''# hello world\<newline>'')"
  by (induct or_skips) code_simp+

text \<open>
  Whitespace before the first item of the text is lost as well: the top-level \<open>And\<close>
  of \<open>script\<close> skips it before its first element.
\<close>

lemma round_trip_drops_leading_whitespace:
  "round_trip 9 or_skips ''\<newline>user www;'' = Some (Inr ''user www;'')"
  by (induct or_skips) code_simp+

text \<open>
  C1. Parsing and dumping an unchanged tree is claimed to give back the text byte for
  byte. Whitespace before \<open>}\<close> is kept by \<open>right_bracket\<close>
  (\<open>space.leaveWhitespace() + Literal("}")\<close>), but \<open>left_bracket\<close> is a plain
  \<open>Literal("{")\<close>, which skips whitespace without a token. The header keeps the
  whitespace before \<open>{\<close> only through the \<open>space\<close> elements of its location part; when
  a modifier is followed by whitespace and \<open>{\<close>, the location part fails as a whole and
  the whitespace is skipped: \<open>location = {}\<close> parses, and is dumped as
  \<open>location ={}\<close>.
\<close>

theorem round_trip_drops_whitespace_before_brace:
  "as_list or_skips ''location = {}'' = Some [L [L [S ''location'', S '' '', S ''=''], L []]] \<and>
   round_trip 9 or_skips ''location = {}'' = Some (Inr ''location ={}'')"
  by (induct or_skips) code_simp+

section \<open>Copying and constructing only add objects\<close>

lemma deepcopy_ext: "deepcopy n h m v = Some (h1, m1, v1) \<Longrightarrow> \<exists>ext. h1 = h @ ext"
  and deepcopy_list_ext: "deepcopy_list n h m xs = Some (h1, m1, ys) \<Longrightarrow> \<exists>ext. h1 = h @ ext"
  and init_parts_ext: "init_parts n h xs so = Some (h1, its, sps) \<Longrightarrow> \<exists>ext. h1 = h @ ext"
  and init_loop_ext:
    "init_loop n h so xs i items spaced = Some (h1, its, sps) \<Longrightarrow> \<exists>ext. h1 = h @ ext"
proof (induction n h m v and n h m xs and n h xs so and n h so xs i items spaced
    arbitrary: h1 m1 v1 and h1 m1 ys and h1 its sps and h1 its sps
    rule: deepcopy_deepcopy_list_init_parts_init_loop.induct)
  case (5 n h m a)
  then show ?case
    by (fastforce split: option.splits obj.splits val.splits prod.splits)
next
  case (7 n h m x xs)
  then show ?case
    by (fastforce split: option.splits prod.splits)
next
  case (9 n h xs spaceout)
  then show ?case
    by (fastforce split: option.splits prod.splits)
next
  case (11 n h spaceout xs i items spaced)
  then show ?case
    by (fastforce split: option.splits val.splits prod.splits if_splits)
qed auto

lemma obj_at_ext: "obj_at h a = Some ob \<Longrightarrow> obj_at (h @ ext) a = Some ob"
  by (auto simp: obj_at_def nth_append split: if_splits)

lemma self_parts_ext: "self_parts h u = Some p \<Longrightarrow> self_parts (h @ ext) u = Some p"
  by (auto simp: self_parts_def obj_at_ext split: option.splits obj.splits)

lemma init_ext: "init n h xs so = Some (h1, u) \<Longrightarrow> \<exists>ext. h1 = h @ ext"
  by (auto simp: init_def split: option.splits dest!: init_parts_ext)

lemma coerce_ext: "coerce n h x so = Some (h1, item, sitem) \<Longrightarrow> \<exists>ext. h1 = h @ ext"
  by (auto simp: coerce_def split: val.splits option.splits obj.splits dest!: init_ext)

lemma coerce_self_parts:
  "coerce n h x so = Some (h1, item, sitem) \<Longrightarrow> self_parts h u = Some p \<Longrightarrow>
   self_parts h1 u = Some p"
  using coerce_ext self_parts_ext by blast

lemma coerce_leaf:
  "\<not> (\<exists>a. x = VRef a) \<Longrightarrow> coerce n h x so = Some (h, x, x)"
  by (cases x) (auto simp: coerce_def)

definition visible_count :: "val list \<Rightarrow> nat" where
  \<comment> \<open>the entries of a formatted list that \<open>_spaces_before\<close> counts as elements\<close>
  "visible_count ys = length (filter (\<lambda>y. \<not> spacey y) ys)"

lemma spaces_before_loop_raises:
  "idx < - 1 \<or> int (visible_count ys) \<le> idx \<Longrightarrow>
   spaces_before_loop ys idx spaces = Inl IndexError"
proof (induction ys arbitrary: idx spaces)
  case Nil
  then show ?case by (auto simp: visible_count_def)
next
  case (Cons y ys)
  show ?case
  proof (cases "spacey y")
    case True
    with Cons.prems have "idx < - 1 \<or> int (visible_count ys) \<le> idx"
      by (simp add: visible_count_def)
    from Cons.IH [OF this] Cons.prems True show ?thesis
      by (auto simp: visible_count_def)
  next
    case False
    with Cons.prems have "idx - 1 < - 1 \<or> int (visible_count ys) \<le> idx - 1"
      by (auto simp: visible_count_def)
    from Cons.IH [OF this] Cons.prems False show ?thesis
      by (auto simp: visible_count_def)
  qed
qed

lemma spaces_before_raises:
  "idx < - 1 \<or> int (visible_count ys) \<le> idx \<Longrightarrow> spaces_before ys idx = Inl IndexError"
  by (simp add: spaces_before_def spaces_before_loop_raises)

section \<open>Indices out of range\<close>




section \<open>Inserting at the end\<close>

text \<open>
  C10, as stated, fails for a list with a dropped sublist: \<open>UnspacedList([[" "], "a"])\<close>
  has the logical view \<open>["a"]\<close> and two non-whitespace entries in its formatted view, so
  \<open>insert(1, "x")\<close>, at the logical length, finds its position and inserts.
\<close>

theorem insert_at_len_succeeds:
  "init 5 [PyList [VStr '' '']] [VRef 0, VStr ''a''] False =
     Some ([PyList [VStr '' ''], PyList [VStr '' ''], PyList [VStr '' ''], Unspaced [] 2,
            PyList [VRef 2, VStr ''a''], Unspaced [VStr ''a''] 4], 5) \<and>
   insert_ul 5 [PyList [VStr '' ''], PyList [VStr '' ''], PyList [VStr '' ''], Unspaced [] 2,
                PyList [VRef 2, VStr ''a''], Unspaced [VStr ''a''] 4] 5 1 (VStr ''x'') False =
     Some (Return VNone
            [PyList [VStr '' ''], PyList [VStr '' ''], PyList [VStr '' ''], Unspaced [] 2,
             PyList [VRef 2, VStr ''x'', VStr ''a''], Unspaced [VStr ''a'', VStr ''x''] 4])"
  by code_simp

text \<open>
  C10, amended. When the formatted view has no more non-whitespace entries than the
  logical view has entries (no sublist was dropped from the logical view), \<open>insert\<close> at
  an index equal to or beyond the logical length raises \<open>IndexError\<close>, whatever the
  element, and leaves both views as they were.
\<close>

theorem insert_at_len_raises:
  assumes "self_parts h u = Some (items, sp, ys)"
    and "visible_count ys \<le> length items"
    and "int (length items) \<le> i"
    and "coerce n h x so = Some (h1, item, spaced_item)"
  shows "insert_ul n h u i x so = Some (Raise IndexError h1) \<and>
         self_parts h1 u = Some (items, sp, ys)"
proof -
  from assms(2,3) have "i < - 1 \<or> int (visible_count ys) \<le> i" by simp
  then have sb: "spaces_before ys i = Inl IndexError" by (rule spaces_before_raises)
  have p1: "self_parts h1 u = Some (items, sp, ys)"
    by (rule coerce_self_parts [OF assms(4,1)])
  then show ?thesis by (simp add: insert_ul_def assms(4) sb)
qed

theorem insert_at_len_raises_witness:
  "insert_ul 5 [PyList [VStr '' '', VStr ''a''], Unspaced [VStr ''a''] 0] 1 1 VNone False =
     Some (Raise IndexError [PyList [VStr '' '', VStr ''a''], Unspaced [VStr ''a''] 0])"
proof -
  let ?h = "[PyList [VStr '' '', VStr ''a''], Unspaced [VStr ''a''] 0]"
  have a: "self_parts ?h 1 = Some ([VStr ''a''], 0, [VStr '' '', VStr ''a''])"
    by code_simp
  have b: "visible_count [VStr '' '', VStr ''a''] \<le> length [VStr ''a'']"
    by code_simp
  have c: "int (length [VStr ''a'']) \<le> 1" by simp
  have d: "coerce 5 ?h VNone False = Some (?h, VNone, VNone)"
    by code_simp
  from insert_at_len_raises [OF a b c d] show ?thesis by simp
qed

section \<open>Elements that are neither strings nor lists\<close>

text \<open>
  C4, as stated, fails: nothing in \<open>UnspacedList\<close> checks the type of an element.
  \<open>_coerce\<close> returns whatever is not a list as it is, so \<open>append(None)\<close> and
  \<open>append(5)\<close> return normally with the element in both views.
\<close>

theorem append_accepts_non_string:
  "append_ul 5 [PyList [VStr ''a''], Unspaced [VStr ''a''] 0] 1 VNone False =
     Some (Return VNone [PyList [VStr ''a'', VNone], Unspaced [VStr ''a'', VNone] 0]) \<and>
   append_ul 5 [PyList [VStr ''a''], Unspaced [VStr ''a''] 0] 1 (VInt 5) False =
     Some (Return VNone [PyList [VStr ''a'', VInt 5], Unspaced [VStr ''a'', VInt 5] 0])"
  by code_simp

text \<open>
  C4, amended. An element that is not a list (a string, \<open>None\<close>, or any other object)
  is taken unchanged: \<open>_coerce\<close> returns it for both views without an error, and
  \<open>append\<close> stores it at the end of both. (Only \<open>extend\<close> fails on \<open>None\<close> or a
  number, with Python's \<open>TypeError\<close> for something that cannot be iterated.)
\<close>

theorem non_list_element_accepted:
  assumes "self_parts h u = Some (items, sp, ys)" and "\<not> (\<exists>a. x = VRef a)"
  shows "coerce n h x so = Some (h, x, x) \<and>
         append_ul n h u x so =
           Some (Return VNone ((h[sp := PyList (ys @ [x])])[u := Unspaced (items @ [x]) sp])) \<and>
         (x = VNone \<or> (\<exists>k. x = VInt k) \<longrightarrow> extend n h u x so = Some (Raise TypeError h))"
proof -
  have c: "coerce n h x so = Some (h, x, x)" by (rule coerce_leaf [OF assms(2)])
  have "x = VNone \<or> (\<exists>k. x = VInt k) \<Longrightarrow> iter_values h x = Some (Inl TypeError)"
    by auto
  with c assms(1) show ?thesis
    by (auto simp: append_ul_def extend_def)
qed

theorem non_list_element_accepted_witness:
  "append_ul 5 [PyList [VStr ''a''], Unspaced [VStr ''a''] 0] 1 VNone False =
     Some (Return VNone [PyList [VStr ''a'', VNone], Unspaced [VStr ''a'', VNone] 0]) \<and>
   extend 5 [PyList [VStr ''a''], Unspaced [VStr ''a''] 0] 1 VNone False =
     Some (Raise TypeError [PyList [VStr ''a''], Unspaced [VStr ''a''] 0])"
proof -
  let ?h = "[PyList [VStr ''a''], Unspaced [VStr ''a''] 0]"
  have a: "self_parts ?h 1 = Some ([VStr ''a''], 0, [VStr ''a''])"
    by code_simp
  have b: "\<not> (\<exists>a. VNone = VRef a)" by simp
  from non_list_element_accepted [OF a b, of 5 False] show ?thesis by simp
qed

section \<open>Appending a directive to a parsed block\<close>

fun split_lines :: "string \<Rightarrow> string list" where
  \<comment> \<open>the lines of a text, split at the newline characters\<close>
  "split_lines [] = [[]]"
| "split_lines (c # cs) =
     (if c = CHR 0x0A then [] # split_lines cs
      else (case split_lines cs of [] \<Rightarrow> [[c]] | l # ls \<Rightarrow> (c # l) # ls))"

definition append_root :: "bool \<Rightarrow> (error + string) option" where
  \<comment> \<open>\<open>parsed = loads("server {\n  listen 80;\n}\n")\<close>,
      \<open>parsed[0][1].append(["root", "/var/www"], spaceout=True)\<close>, \<open>dumps(parsed)\<close>\<close>
  "append_root or_skips =
     (case loads 9 or_skips [] ''server {\<newline>  listen 80;\<newline>}\<newline>'' of
        None \<Rightarrow> None
      | Some (h, parsed) \<Rightarrow>
          (case getitem h parsed 0 of
             Some (Inr (VRef block0)) \<Rightarrow>
               (case getitem h block0 1 of
                  Some (Inr (VRef body)) \<Rightarrow>
                    (case alloc h (L [S ''root'', S ''/var/www'']) of
                       (h1, directive) \<Rightarrow>
                         (case append_ul 9 h1 body directive True of
                            Some (Return v h2) \<Rightarrow> dumps 9 h2 parsed
                          | _ \<Rightarrow> None))
                | _ \<Rightarrow> None)
           | _ \<Rightarrow> None))"

lemma append_root_eq:
  "append_root or_skips =
     Some (Inr ''server {\<newline>  listen 80;\<newline>\<newline>root /var/www;}\<newline>'')"
  by (induct or_skips) code_simp+

text \<open>
  C5, as stated, fails in its last part. The append succeeds and the new directive is
  dumped inside the block, but spaced construction puts a newline before the directive
  and nothing after it, so the closing brace follows on the same line: the output has no
  line \<open>root /var/www;\<close> and no line \<open>}\<close> any more; the line is \<open>root /var/www;}\<close>.
\<close>

theorem append_root_shares_line_with_brace:
  "append_root False = Some (Inr ''server {\<newline>  listen 80;\<newline>\<newline>root /var/www;}\<newline>'') \<and>
   append_root True = Some (Inr ''server {\<newline>  listen 80;\<newline>\<newline>root /var/www;}\<newline>'') \<and>
   split_lines ''server {\<newline>  listen 80;\<newline>\<newline>root /var/www;}\<newline>'' =
     [''server {'', ''  listen 80;'', '''', ''root /var/www;}'', ''''] \<and>
   ''}'' \<in> set (split_lines ''server {\<newline>  listen 80;\<newline>}\<newline>'') \<and>
   ''}'' \<notin> set (split_lines ''server {\<newline>  listen 80;\<newline>\<newline>root /var/www;}\<newline>'') \<and>
   ''root /var/www;'' \<notin> set (split_lines ''server {\<newline>  listen 80;\<newline>\<newline>root /var/www;}\<newline>'')"
  by (simp add: append_root_eq)

text \<open>
  C5, amended. The append succeeds, and the output is the original text with
  \<open>\nroot /var/www;\<close> inserted directly before the closing brace of the block: every
  byte of the original is kept, in order, and the directive is terminated with its
  semicolon inside the braces.
\<close>

theorem append_root_output:
  "append_root or_skips =
     Some (Inr (''server {\<newline>  listen 80;\<newline>'' @ ''\<newline>root /var/www;'' @ ''}\<newline>'')) \<and>
   ''server {\<newline>  listen 80;\<newline>}\<newline>'' = ''server {\<newline>  listen 80;\<newline>'' @ ''}\<newline>''"
  by (simp add: append_root_eq)

section \<open>The two views after a deep copy\<close>

text \<open>
  The constructor makes the two views of a tree out of shared parts: for a sublist at
  position \<open>i\<close> it stores \<open>sublist.spaced\<close>, the object itself, as \<open>self.spaced[i]\<close>,
  so a change of the sublist is a change of what \<open>dumps\<close> reads. \<open>__deepcopy__\<close>
  builds the copy with the constructor, from the logical view, and then replaces the
  \<open>spaced\<close> list of the copy by a deep copy of the original one. The nested lists of
  the copy keep the \<open>spaced\<close> lists that the constructor gave them, and these are no
  part of the new top-level \<open>spaced\<close>.
\<close>

fun count_elided :: "bool \<Rightarrow> node list \<Rightarrow> nat" where
  \<comment> \<open>the whitespace-only leaves of a formatted list that the constructor leaves out of
      the logical view: those with no \<open>#\<close> before them\<close>
  "count_elided seen [] = 0"
| "count_elided seen (y # ys) =
     (if spacey_node y \<and> \<not> seen then 1 else 0) + count_elided (seen \<or> y = S ''#'') ys"

fun counts_agree :: "node \<times> node \<times> node \<times> (error + string) \<Rightarrow> bool" where
  \<comment> \<open>the logical elements and the elided whitespace leaves of a level add up to the
      entries that serialization reads there\<close>
  "counts_agree (L xs, own, L ys, text) = (length xs + count_elided False ys = length ys)"
| "counts_agree other = False"

definition body_views :: "heap \<Rightarrow> addr \<Rightarrow> (node \<times> node \<times> node \<times> (error + string)) option" where
  \<comment> \<open>of a tree \<open>t\<close> that starts with a block: the body \<open>t[0][1]\<close>, its own formatted
      list \<open>t[0][1].spaced\<close>, the formatted body that serialization reads,
      \<open>t.spaced[0][1]\<close>, and \<open>dumps(t)\<close>\<close>
  "body_views h t =
     (case obj_at h t of
        Some (Unspaced items sp) \<Rightarrow>
          (case getitem h t 0 of
             Some (Inr (VRef block0)) \<Rightarrow>
               (case getitem h block0 1 of
                  Some (Inr (VRef body)) \<Rightarrow>
                    (case getitem h sp 0 of
                       Some (Inr (VRef spaced_block0)) \<Rightarrow>
                         (case getitem h spaced_block0 1 of
                            Some (Inr spaced_body) \<Rightarrow>
                              (case obj_at h body of
                                 Some (Unspaced elements body_sp) \<Rightarrow>
                                   (case freeze 9 h (VRef body) of
                                      None \<Rightarrow> None
                                    | Some logical \<Rightarrow>
                                        (case freeze 9 h (VRef body_sp) of
                                           None \<Rightarrow> None
                                         | Some own \<Rightarrow>
                                             (case freeze 9 h spaced_body of
                                                None \<Rightarrow> None
                                              | Some formatted \<Rightarrow>
                                                  (case dumps 9 h t of
                                                     None \<Rightarrow> None
                                                   | Some text \<Rightarrow>
                                                       Some (logical, own, formatted, text)))))
                               | _ \<Rightarrow> None)
                          | _ \<Rightarrow> None)
                     | _ \<Rightarrow> None)
                | _ \<Rightarrow> None)
           | _ \<Rightarrow> None)
      | _ \<Rightarrow> None)"

definition append_to_body :: "heap \<Rightarrow> addr \<Rightarrow> heap option" where
  \<comment> \<open>\<open>t[0][1].append(["root", "/var/www"], spaceout=True)\<close>, returning normally\<close>
  "append_to_body h t =
     (case getitem h t 0 of
        Some (Inr (VRef block0)) \<Rightarrow>
          (case getitem h block0 1 of
             Some (Inr (VRef body)) \<Rightarrow>
               (case alloc h (L [S ''root'', S ''/var/www'']) of
                  (h1, directive) \<Rightarrow>
                    (case append_ul 9 h1 body directive True of
                       Some (Return v h2) \<Rightarrow> Some h2
                     | _ \<Rightarrow> None))
           | _ \<Rightarrow> None)
      | _ \<Rightarrow> None)"

definition clone_append :: "bool \<Rightarrow> bool \<Rightarrow> (node \<times> node \<times> node \<times> (error + string)) option"
  where
  \<comment> \<open>\<open>parsed = loads("server {\n  listen 80;\n}\n")\<close>, \<open>c = copy.deepcopy(parsed)\<close>
      and, if \<open>appended\<close>, \<open>c[0][1].append(["root", "/var/www"], spaceout=True)\<close>: the
      views of the body of \<open>c\<close>\<close>
  "clone_append or_skips appended =
     (case loads 9 or_skips [] ''server {\<newline>  listen 80;\<newline>}\<newline>'' of
        None \<Rightarrow> None
      | Some (h, parsed) \<Rightarrow>
          (case deepcopy 9 h [] (VRef parsed) of
             Some (h1, m, VRef c) \<Rightarrow>
               (if appended
                then (case append_to_body h1 c of
                        None \<Rightarrow> None
                      | Some h2 \<Rightarrow> body_views h2 c)
                else body_views h1 c)
           | _ \<Rightarrow> None))"

definition parsed_append :: "bool \<Rightarrow> (node \<times> node \<times> node \<times> (error + string)) option" where
  \<comment> \<open>the same append on the parsed tree itself\<close>
  "parsed_append or_skips =
     (case loads 9 or_skips [] ''server {\<newline>  listen 80;\<newline>}\<newline>'' of
        None \<Rightarrow> None
      | Some (h, parsed) \<Rightarrow>
          (case append_to_body h parsed of
             None \<Rightarrow> None
           | Some h2 \<Rightarrow> body_views h2 parsed))"

lemma parsed_append_views:
  "parsed_append or_skips =
     Some (L [L [S ''listen'', S ''80''], L [S ''root'', S ''/var/www'']],
           L [L [S ''\<newline>  '', S ''listen'', S '' '', S ''80''], S ''\<newline>'',
              L [S ''\<newline>'', S ''root'', S '' '', S ''/var/www'']],
           L [L [S ''\<newline>  '', S ''listen'', S '' '', S ''80''], S ''\<newline>'',
              L [S ''\<newline>'', S ''root'', S '' '', S ''/var/www'']],
           Inr ''server {\<newline>  listen 80;\<newline>\<newline>root /var/www;}\<newline>'')"
  "map_option counts_agree (parsed_append or_skips) = Some True"
  by (induct or_skips) code_simp+

text \<open>
  C2. After every sequence of mutations, a deep copy followed by further mutation
  among them, the logical elements of a level and the whitespace leaves elided there are
  claimed to add up to the entries of the formatted view that serialization reads. They
  do not after \<open>c = copy.deepcopy(parsed)\<close> and
  \<open>c[0][1].append(["root", "/var/www"], spaceout=True)\<close>. In the copy the counts
  agree: the body has one element, and serialization reads two entries, one of them a
  whitespace leaf. The append adds the directive to the body and to the body's own
  \<open>spaced\<close> list, which has lost its whitespace and is not the list that \<open>c.spaced\<close>
  holds: the body has two elements, serialization still reads the two entries of before,
  and \<open>dumps(c)\<close> is the original text, without the directive.
\<close>

theorem deepcopy_then_append_drifts:
  "clone_append or_skips False =
     Some (L [L [S ''listen'', S ''80'']],
           L [L [S ''listen'', S ''80'']],
           L [L [S ''\<newline>  '', S ''listen'', S '' '', S ''80''], S ''\<newline>''],
           Inr ''server {\<newline>  listen 80;\<newline>}\<newline>'') \<and>
   map_option counts_agree (clone_append or_skips False) = Some True \<and>
   clone_append or_skips True =
     Some (L [L [S ''listen'', S ''80''], L [S ''root'', S ''/var/www'']],
           L [L [S ''listen'', S ''80''], L [S ''\<newline>'', S ''root'', S '' '', S ''/var/www'']],
           L [L [S ''\<newline>  '', S ''listen'', S '' '', S ''80''], S ''\<newline>''],
           Inr ''server {\<newline>  listen 80;\<newline>}\<newline>'') \<and>
   map_option counts_agree (clone_append or_skips True) = Some False"
  by (induct or_skips) code_simp+

text \<open>
  Two more ways in which the counts of one list come apart. A negative index is not
  translated: \<open>_spaces_before(-1)\<close> is 0, so \<open>del l[-1]\<close> on
  \<open>UnspacedList(["a", "b", " "])\<close> deletes the whitespace leaf from \<open>spaced\<close> and
  \<open>"b"\<close> from the list. And the constructor drops a sublist that holds only
  whitespace from the logical view, which is an entry of the formatted view and not a
  whitespace leaf: \<open>UnspacedList([[" "]])\<close> has no element and one formatted entry.
\<close>

lemma delete_last_drifts:
  "init 5 [] [VStr ''a'', VStr ''b'', VStr '' ''] False =
     Some ([PyList [VStr ''a'', VStr ''b'', VStr '' ''], Unspaced [VStr ''a'', VStr ''b''] 0], 1)"
  "delitem [PyList [VStr ''a'', VStr ''b'', VStr '' ''], Unspaced [VStr ''a'', VStr ''b''] 0] 1 (- 1) =
     Some (Return VNone [PyList [VStr ''a'', VStr ''b''], Unspaced [VStr ''a''] 0])"
  by code_simp+

lemma dropped_sublist_is_formatted_entry:
  "init 5 [PyList [VStr '' '']] [VRef 0] False =
     Some ([PyList [VStr '' ''], PyList [VStr '' ''], PyList [VStr '' ''], Unspaced [] 2,
            PyList [VRef 2], Unspaced [] 4], 5)"
  "self_parts [PyList [VStr '' ''], PyList [VStr '' ''], PyList [VStr '' ''], Unspaced [] 2,
               PyList [VRef 2], Unspaced [] 4] 5 = Some ([], 4, [VRef 2])"
  by code_simp+

section \<open>Concatenation\<close>

lemma self_parts_update:
  assumes "self_parts h u = Some (items, sp, ys)"
  shows "self_parts ((h[sp := PyList ys'])[u := Unspaced items' sp]) u = Some (items', sp, ys')"
proof -
  from assms have u: "u < length h" "h ! u = Unspaced items sp"
    and sp: "sp < length h" "h ! sp = PyList ys"
    by (auto simp: self_parts_def obj_at_def split: if_splits obj.splits option.splits)
  then have "u \<noteq> sp" by auto
  with u sp show ?thesis by (simp add: self_parts_def obj_at_def)
qed

lemma self_parts_take:
  assumes "take (length h) h' = h" and "self_parts h u = Some p"
  shows "self_parts h' u = Some p"
proof -
  from assms(1) have "h' = h @ drop (length h) h'"
    by (metis append_take_drop_id)
  with self_parts_ext [OF assms(2), of "drop (length h) h'"] show ?thesis by simp
qed

lemma extend_unspaced:
  assumes "self_parts h u = Some (iu, spu, yu)" and "self_parts h b = Some (ib, spb, yb)"
  shows "extend n h u (VRef b) so =
           Some (Return VNone ((h[spu := PyList (yu @ yb)])[u := Unspaced (iu @ ib) spu]))"
proof -
  from assms(1) have u: "u < length h" "h ! u = Unspaced iu spu"
    and spu: "spu < length h" "h ! spu = PyList yu"
    by (auto simp: self_parts_def obj_at_def split: if_splits obj.splits option.splits)
  from assms(2) have b: "b < length h" "h ! b = Unspaced ib spb"
    and spb: "spb < length h" "h ! spb = PyList yb"
    by (auto simp: self_parts_def obj_at_def split: if_splits obj.splits option.splits)
  from spu b have ne: "b \<noteq> spu" by auto
  have c: "coerce n h (VRef b) so = Some (h, VRef b, VRef spb)"
    using b by (simp add: coerce_def obj_at_def)
  have i1: "iter_values h (VRef spb) = Some (Inr yb)"
    using spb by (simp add: obj_at_def)
  have i2: "iter_values (h[spu := PyList (yu @ yb)]) (VRef b) = Some (Inr ib)"
    using b ne by (simp add: obj_at_def)
  show ?thesis
    by (simp add: extend_def c assms(1) i1 i2 Let_def del: iter_values.simps)
qed

lemma deepcopy_unspaced_parts:
  assumes "self_parts h a = Some (ia, spa, ya)" and "deepcopy n h [] (VRef a) = Some (h1, m, v)"
  shows "\<exists>l il spl yl. v = VRef l \<and> length h \<le> spl \<and> length h \<le> l \<and>
           take (length h) h1 = h \<and> self_parts h1 l = Some (il, spl, yl)"
proof -
  from assms(1) have a: "obj_at h a = Some (Unspaced ia spa)"
    and spa: "obj_at h spa = Some (PyList ya)"
    by (auto simp: self_parts_def split: if_splits obj.splits option.splits)
  from assms(2) obtain k where n: "n = Suc k" by (cases n) auto
  from assms(2) n a obtain h2 il unused h3 m3 spl where
    i: "init_parts k h ia False = Some (h2, il, unused)" and
    d: "deepcopy k h2 [] (VRef spa) = Some (h3, m3, VRef spl)" and
    h1: "h1 = h3 @ [Unspaced il spl]" and v: "v = VRef (length h3)"
    by (auto split: option.splits val.splits)
  from init_parts_ext [OF i] obtain e2 where e2: "h2 = h @ e2" by blast
  from obj_at_ext [OF spa, of e2] e2 have spa2: "obj_at h2 spa = Some (PyList ya)" by simp
  from d obtain j where k: "k = Suc j" by (cases k) auto
  from d k spa2 obtain h4 m4 yl where
    dl: "deepcopy_list j h2 [] ya = Some (h4, m4, yl)" and
    h3: "h3 = h4 @ [PyList yl]" and spl: "spl = length h4"
    by (auto split: option.splits)
  from deepcopy_list_ext [OF dl] obtain e4 where e4: "h4 = h2 @ e4" by blast
  have "self_parts h1 (length h3) = Some (il, spl, yl)"
    by (simp add: self_parts_def obj_at_def h1 h3 spl nth_append)
  moreover have "length h \<le> spl" "length h \<le> length h3"
    by (simp_all add: spl h3 e4 e2)
  moreover have "take (length h) h1 = h"
    by (simp add: h1 h3 e4 e2)
  ultimately show ?thesis using v by blast
qed

definition heap_ab :: heap where
  \<comment> \<open>\<open>a = UnspacedList([])\<close> at address 2 and \<open>b = UnspacedList([["x"]])\<close> at
      address 7, built from the plain list at address 0\<close>
  "heap_ab =
     [PyList [VStr ''x''], PyList [], Unspaced [] 1, PyList [VStr ''x''],
      PyList [VStr ''x''], Unspaced [VStr ''x''] 4, PyList [VRef 4], Unspaced [VRef 5] 6]"

text \<open>
  C6, as stated, fails. \<open>__add__\<close> deep-copies the left operand only. \<open>_coerce\<close>
  returns an operand that is an \<open>UnspacedList\<close> as it is, and \<open>extend\<close> then takes its
  elements by reference: in \<open>c = a + b\<close> the element \<open>c[0]\<close> is the object \<open>b[0]\<close>
  (address 5), and \<open>c[0].append("z")\<close> changes \<open>b[0]\<close>.
\<close>

theorem concatenation_shares_sublists:
  "init 5 [PyList [VStr ''x'']] [] False =
     Some ([PyList [VStr ''x''], PyList [], Unspaced [] 1], 2) \<and>
   init 5 [PyList [VStr ''x''], PyList [], Unspaced [] 1] [VRef 0] False = Some (heap_ab, 7) \<and>
   add 5 heap_ab 2 (VRef 7) =
     Some (Return (VRef 9) (heap_ab @ [PyList [VRef 4], Unspaced [VRef 5] 8])) \<and>
   getitem heap_ab 7 0 = Some (Inr (VRef 5)) \<and>
   getitem (heap_ab @ [PyList [VRef 4], Unspaced [VRef 5] 8]) 9 0 = Some (Inr (VRef 5)) \<and>
   append_ul 5 (heap_ab @ [PyList [VRef 4], Unspaced [VRef 5] 8]) 5 (VStr ''z'') False =
     Some (Return VNone
       [PyList [VStr ''x''], PyList [], Unspaced [] 1, PyList [VStr ''x''],
        PyList [VStr ''x'', VStr ''z''], Unspaced [VStr ''x'', VStr ''z''] 4, PyList [VRef 4],
        Unspaced [VRef 5] 6, PyList [VRef 4], Unspaced [VRef 5] 8])"
  by code_simp

text \<open>
  C6, amended. Let \<open>a\<close> and \<open>b\<close> be \<open>UnspacedList\<close> objects, and let
  \<open>copy.deepcopy(a)\<close> return the object \<open>l\<close>. Then \<open>a + b\<close> returns \<open>l\<close>, a new
  object, with the elements of \<open>b\<close> appended to its logical view and the entries of
  \<open>b.spaced\<close> appended to its formatted view, each as the value it is in \<open>b\<close>: a nested
  list of \<open>b\<close> is in the result by reference, not as a copy. No object that existed
  before is changed, so \<open>a\<close> and \<open>b\<close> have the views they had. \<open>a.extend(b)\<close>
  returns normally and appends the same values to the two views of \<open>a\<close>; it changes
  \<open>a\<close> and \<open>a.spaced\<close> and nothing else.
\<close>

theorem concatenation_appends_by_reference:
  assumes "self_parts h a = Some (ia, spa, ya)" and "self_parts h b = Some (ib, spb, yb)"
  shows "extend n h a (VRef b) so =
           Some (Return VNone ((h[spa := PyList (ya @ yb)])[a := Unspaced (ia @ ib) spa])) \<and>
         (deepcopy n h [] (VRef a) = Some (h1, m, v) \<longrightarrow>
           (\<exists>l il spl yl h'.
              v = VRef l \<and> length h \<le> l \<and> length h \<le> spl \<and>
              self_parts h1 l = Some (il, spl, yl) \<and>
              h' = (h1[spl := PyList (yl @ yb)])[l := Unspaced (il @ ib) spl] \<and>
              add n h a (VRef b) = Some (Return (VRef l) h') \<and>
              self_parts h' l = Some (il @ ib, spl, yl @ yb) \<and>
              take (length h) h' = h \<and>
              self_parts h' a = Some (ia, spa, ya) \<and>
              self_parts h' b = Some (ib, spb, yb)))"
proof (intro conjI impI)
  show "extend n h a (VRef b) so =
          Some (Return VNone ((h[spa := PyList (ya @ yb)])[a := Unspaced (ia @ ib) spa]))"
    by (rule extend_unspaced [OF assms])
next
  assume d: "deepcopy n h [] (VRef a) = Some (h1, m, v)"
  from deepcopy_unspaced_parts [OF assms(1) d] obtain l il spl yl where
    v: "v = VRef l" and spl: "length h \<le> spl" and l: "length h \<le> l" and
    tk: "take (length h) h1 = h" and p: "self_parts h1 l = Some (il, spl, yl)"
    by blast
  define h' where "h' = (h1[spl := PyList (yl @ yb)])[l := Unspaced (il @ ib) spl]"
  from self_parts_take [OF tk assms(2)] have b1: "self_parts h1 b = Some (ib, spb, yb)" .
  from extend_unspaced [OF p b1, of n False]
  have e: "extend n h1 l (VRef b) False = Some (Return VNone h')"
    by (simp add: h'_def)
  have ad: "add n h a (VRef b) = Some (Return (VRef l) h')"
    using d by (simp add: add_def v e)
  have tk': "take (length h) h' = h"
    using tk spl l by (simp add: h'_def take_update_cancel)
  from self_parts_update [OF p] have pl: "self_parts h' l = Some (il @ ib, spl, yl @ yb)"
    by (simp add: h'_def)
  from self_parts_take [OF tk' assms(1)] have pa: "self_parts h' a = Some (ia, spa, ya)" .
  from self_parts_take [OF tk' assms(2)] have pb: "self_parts h' b = Some (ib, spb, yb)" .
  from v l spl p h'_def ad pl tk' pa pb
  show "\<exists>l il spl yl h'.
          v = VRef l \<and> length h \<le> l \<and> length h \<le> spl \<and>
          self_parts h1 l = Some (il, spl, yl) \<and>
          h' = (h1[spl := PyList (yl @ yb)])[l := Unspaced (il @ ib) spl] \<and>
          add n h a (VRef b) = Some (Return (VRef l) h') \<and>
          self_parts h' l = Some (il @ ib, spl, yl @ yb) \<and>
          take (length h) h' = h \<and>
          self_parts h' a = Some (ia, spa, ya) \<and>
          self_parts h' b = Some (ib, spb, yb)"
    by blast
qed

theorem concatenation_appends_by_reference_witness:
  "add 5 heap_ab 2 (VRef 7) =
     Some (Return (VRef 9) (heap_ab @ [PyList [VRef 4], Unspaced [VRef 5] 8])) \<and>
   self_parts (heap_ab @ [PyList [VRef 4], Unspaced [VRef 5] 8]) 9 =
     Some ([VRef 5], 8, [VRef 4]) \<and>
   self_parts (heap_ab @ [PyList [VRef 4], Unspaced [VRef 5] 8]) 7 =
     Some ([VRef 5], 6, [VRef 4]) \<and>
   extend 5 heap_ab 2 (VRef 7) False =
     Some (Return VNone
       [PyList [VStr ''x''], PyList [VRef 4], Unspaced [VRef 5] 1, PyList [VStr ''x''],
        PyList [VStr ''x''], Unspaced [VStr ''x''] 4, PyList [VRef 4], Unspaced [VRef 5] 6])"
proof -
  let ?h1 = "heap_ab @ [PyList [], Unspaced [] 8]"
  have a: "self_parts heap_ab 2 = Some ([], 1, [])"
    by code_simp
  have b: "self_parts heap_ab 7 = Some ([VRef 5], 6, [VRef 4])"
    by code_simp
  have d: "deepcopy 5 heap_ab [] (VRef 2) = Some (?h1, [(2, 9)], VRef 9)"
    by code_simp
  have p: "self_parts ?h1 9 = Some ([], 8, [])"
    by code_simp
  note inst = concatenation_appends_by_reference [OF a b, of 5 False ?h1 "[(2, 9)]" "VRef 9"]
  from inst have
    ex: "extend 5 heap_ab 2 (VRef 7) False =
           Some (Return VNone ((heap_ab[1 := PyList ([] @ [VRef 4])])[2 := Unspaced ([] @ [VRef 5]) 1]))"
    by blast
  from inst d obtain l il spl yl h' where
    l: "VRef 9 = VRef l" and pl: "self_parts ?h1 l = Some (il, spl, yl)" and
    h': "h' = (?h1[spl := PyList (yl @ [VRef 4])])[l := Unspaced (il @ [VRef 5]) spl]" and
    ad: "add 5 heap_ab 2 (VRef 7) = Some (Return (VRef l) h')" and
    pl': "self_parts h' l = Some (il @ [VRef 5], spl, yl @ [VRef 4])" and
    pb: "self_parts h' 7 = Some ([VRef 5], 6, [VRef 4])"
    by blast
  from l have l9: "l = 9" by simp
  from pl p l9 have parts: "il = []" "spl = 8" "yl = []" by simp_all
  from h' l9 parts have h'': "h' = heap_ab @ [PyList [VRef 4], Unspaced [VRef 5] 8]"
    by (simp add: heap_ab_def)
  from ad pl' pb ex l9 parts h'' show ?thesis
    by (simp add: heap_ab_def)
qed

end
